theory Spec2Isabelle
  imports Main "HOL-Library.Word" "HOL-Library.Sublist"
begin

section \<open>The C runtime the library relies on\<close>

text \<open>
  The library is C. Everything the C code can do besides returning a value is a branch of
  the model: a dereferenced null pointer, a string function applied to a character array
  that holds no terminator, a write past a local array, an integer conversion whose value
  does not fit, and a failed \<^verbatim>\<open>assert\<close> (the model is the build with assertions
  enabled, the default; they abort the process).
\<close>

datatype fault = NullDeref | OverRead | BufferOverflow | IntOverflow | AssertFail

text \<open>
  The error numbers the library returns, negated: constants of the C library's
  \<^verbatim>\<open>errno.h\<close>, with their Linux values.
\<close>

definition ENOENT :: int where "ENOENT = 2"
definition ENOMEM :: int where "ENOMEM = 12"
definition EINVAL :: int where "EINVAL = 22"
definition ENOSYS :: int where "ENOSYS = 38"

text \<open>The sizes of \<^verbatim>\<open>iio.h\<close>.\<close>

definition IIO_XML_SIZE :: nat where "IIO_XML_SIZE = 1024 * 3"
definition ATTR_NAME_MAX_SIZE :: nat where "ATTR_NAME_MAX_SIZE = 32"
definition DEV_NAME_STR_MAX_SIZE :: nat where "DEV_NAME_STR_MAX_SIZE = 32"
definition CHN_ID_STR_MAX_SIZE :: nat where "CHN_ID_STR_MAX_SIZE = 32"
definition CONTEXT_NAME_MAX_SIZE :: nat where "CONTEXT_NAME_MAX_SIZE = 32"
definition CONTEXT_DESC_MAX_SIZE :: nat where "CONTEXT_DESC_MAX_SIZE = 32"
definition TYPE_STR_MAX_SIZE :: nat where "TYPE_STR_MAX_SIZE = 16"

text \<open>
  A C string (a \<^verbatim>\<open>const char *\<close> argument) is the list of its characters before the
  terminator. A character array \<^verbatim>\<open>char name[n]\<close> filled by \<^verbatim>\<open>strncpy\<close> is
  modelled by the characters it holds before its first NUL, or all \<open>n\<close> of them when it
  holds none: \<^verbatim>\<open>strncpy(dst, src, n)\<close> copies at most \<open>n\<close> characters and pads with
  NULs only when \<open>src\<close> is shorter than \<open>n\<close>, so a source of \<open>n\<close> or more characters
  leaves the array without a terminator.
\<close>

definition strncpy :: "string \<Rightarrow> nat \<Rightarrow> string" where
  "strncpy src n = take n src"

text \<open>
  Reading an array of size \<open>n\<close> as a string (\<^verbatim>\<open>strlen\<close>, \<^verbatim>\<open>strcmp\<close>,
  \<^verbatim>\<open>strcat\<close>): defined only when the array holds a terminator.
\<close>

definition c_str :: "nat \<Rightarrow> string \<Rightarrow> string option" where
  "c_str n field = (if length field < n then Some field else None)"

text \<open>\<^verbatim>\<open>strcmp(a, b) == 0\<close>, each argument a string or an array without terminator.\<close>

definition strcmp_zero :: "string option \<Rightarrow> string option \<Rightarrow> fault + bool" where
  "strcmp_zero a b =
     (case a of None \<Rightarrow> Inl OverRead
      | Some x \<Rightarrow> (case b of None \<Rightarrow> Inl OverRead | Some y \<Rightarrow> Inr (x = y)))"

text \<open>
  \<^verbatim>\<open>atoi\<close>: white space is skipped, then an optional sign, then the longest run of
  decimal digits; no digits give 0. A value outside \<^verbatim>\<open>int\<close> is undefined behaviour.
\<close>

definition isspace :: "char \<Rightarrow> bool" where
  "isspace c = (c \<in> set [CHR 0x20, CHR 0x09, CHR 0x0A, CHR 0x0B, CHR 0x0C, CHR 0x0D])"

definition isdigit :: "char \<Rightarrow> bool" where
  "isdigit c = (48 \<le> (of_char c :: nat) \<and> (of_char c :: nat) \<le> 57)"

fun atoi_digits :: "int \<Rightarrow> string \<Rightarrow> int" where
  "atoi_digits acc [] = acc"
| "atoi_digits acc (c # cs) =
     (if isdigit c then atoi_digits (acc * 10 + (of_char c - 48)) cs else acc)"

definition atoi :: "string \<Rightarrow> int option" where
  "atoi nptr =
     (let s = dropWhile isspace nptr;
          v = (case s of
                 [] \<Rightarrow> 0
               | c # cs \<Rightarrow>
                   if c = CHR ''-'' then - atoi_digits 0 cs
                   else if c = CHR ''+'' then atoi_digits 0 cs
                   else atoi_digits 0 s)
      in if - (2 ^ 31) \<le> v \<and> v < 2 ^ 31 then Some v else None)"

text \<open>\<^verbatim>\<open>sprintf(buf, "%d", i)\<close>: the decimal digits of a signed integer.\<close>

function dec_nat :: "nat \<Rightarrow> string" where
  "dec_nat n = (if n < 10 then [char_of (48 + n)] else dec_nat (n div 10) @ [char_of (48 + n mod 10)])"
  by pat_completeness auto
termination
  by (relation "measure id") auto

definition sprintf_d :: "int \<Rightarrow> string" where
  "sprintf_d i = (if i < 0 then CHR ''-'' # dec_nat (nat (- i)) else dec_nat (nat i))"

section \<open>The data model of \<^verbatim>\<open>iio.h\<close>\<close>

text \<open>
  A linked list (\<^verbatim>\<open>struct attribute_list *\<close> and its siblings) is the list of the
  elements its nodes point to; the null pointer is \<open>[]\<close>. The registration functions
  never leave a node without an element behind.
\<close>

record attribute =
  attr_name :: string

record channel =
  chn_id :: string
  chn_type :: string
  chn_attrs :: "attribute list"

text \<open>
  Pointers and sizes that the library only passes on: the opaque \<^verbatim>\<open>uintptr_t data\<close>
  of a device, a buffer address, and \<^verbatim>\<open>size_t\<close> (the channel accessors receive the same
  bits as \<^verbatim>\<open>ssize_t\<close>).
\<close>

type_synonym uintptr = nat
type_synonym buf_ptr = nat
type_synonym size_t = "64 word"

text \<open>
  \<^verbatim>\<open>enum iio_attr_type\<close> is declared in \<^verbatim>\<open>tinyiiod.h\<close>, which is not among the
  files at hand; its values are the three that \<^verbatim>\<open>example2.c\<close> switches on. The
  library only passes a value of it on to the accessor.
\<close>

datatype iio_attr_type = IIO_ATTR_TYPE_DEVICE | IIO_ATTR_TYPE_DEBUG | IIO_ATTR_TYPE_BUFFER

text \<open>
  An accessor is a function pointer of the device's owner. It runs on the state of the
  world outside the library (\<open>'w\<close>: the hardware, the buffers) and returns a
  \<^verbatim>\<open>ssize_t\<close>; a null function pointer is \<open>None\<close>.
\<close>

record 'w attr_accessors =
  acc_read_attr ::
    "(uintptr \<Rightarrow> string \<Rightarrow> buf_ptr \<Rightarrow> size_t \<Rightarrow> iio_attr_type \<Rightarrow> 'w \<Rightarrow> int \<times> 'w) option"
  acc_write_attr ::
    "(uintptr \<Rightarrow> string \<Rightarrow> buf_ptr \<Rightarrow> size_t \<Rightarrow> iio_attr_type \<Rightarrow> 'w \<Rightarrow> int \<times> 'w) option"

record 'w chn_accessors =
  chn_read_attr ::
    "(uintptr \<Rightarrow> string \<Rightarrow> bool \<Rightarrow> string \<Rightarrow> buf_ptr \<Rightarrow> size_t \<Rightarrow> 'w \<Rightarrow> int \<times> 'w) option"
  chn_write_attr ::
    "(uintptr \<Rightarrow> string \<Rightarrow> bool \<Rightarrow> string \<Rightarrow> buf_ptr \<Rightarrow> size_t \<Rightarrow> 'w \<Rightarrow> int \<times> 'w) option"
  chn_read_data ::
    "(uintptr \<Rightarrow> buf_ptr \<Rightarrow> size_t \<Rightarrow> size_t \<Rightarrow> 'w \<Rightarrow> int \<times> 'w) option"
  chn_write_data ::
    "(uintptr \<Rightarrow> buf_ptr \<Rightarrow> size_t \<Rightarrow> size_t \<Rightarrow> 'w \<Rightarrow> int \<times> 'w) option"

text \<open>
  \<^verbatim>\<open>iio_new_static_device\<close> asserts that both accessor tables are given, so a device
  holds the tables themselves.
\<close>

record 'w device =
  dev_name :: string
  dev_id :: "32 word"
  dev_data :: uintptr
  dev_channels :: "channel list"
  dev_attrs :: "attribute list"
  dev_attr_accessors :: "'w attr_accessors"
  dev_chn_accessors :: "'w chn_accessors"

record 'w iio_context =
  ctx_name :: string
  ctx_description :: string
  ctx_devices :: "'w device list"
  ctx_xml :: string

section \<open>Creation\<close>

definition iio_new_static_channel :: "channel \<Rightarrow> string \<Rightarrow> string \<Rightarrow> channel" where
  "iio_new_static_channel channel id' type =
     channel\<lparr>chn_id := strncpy id' CHN_ID_STR_MAX_SIZE,
             chn_type := strncpy type TYPE_STR_MAX_SIZE,
             chn_attrs := []\<rparr>"

definition iio_new_static_attribute :: "attribute \<Rightarrow> string \<Rightarrow> attribute" where
  "iio_new_static_attribute attr name = attr\<lparr>attr_name := strncpy name ATTR_NAME_MAX_SIZE\<rparr>"

text \<open>\<^verbatim>\<open>iio_new_attribute\<close>: \<open>None\<close> is the null pointer it returns when \<^verbatim>\<open>malloc\<close> fails.\<close>

definition iio_new_attribute :: "bool \<Rightarrow> string \<Rightarrow> attribute option" where
  "iio_new_attribute malloc_ok name =
     (if \<not> malloc_ok then None
      else Some (iio_new_static_attribute \<lparr>attr_name = []\<rparr> name))"

definition iio_new_static_device ::
  "'w device \<Rightarrow> string \<Rightarrow> 32 word \<Rightarrow> uintptr \<Rightarrow> 'w attr_accessors option \<Rightarrow>
   'w chn_accessors option \<Rightarrow> fault + 'w device" where
  "iio_new_static_device device name id' data attr_accessors chn_accessors =
     (case attr_accessors of None \<Rightarrow> Inl AssertFail
      | Some aa \<Rightarrow>
     (case chn_accessors of None \<Rightarrow> Inl AssertFail
      | Some ca \<Rightarrow>
          Inr (device\<lparr>dev_name := strncpy name ATTR_NAME_MAX_SIZE,
                      dev_id := id',
                      dev_attr_accessors := aa,
                      dev_chn_accessors := ca,
                      dev_data := data,
                      dev_attrs := [],
                      dev_channels := []\<rparr>)))"

section \<open>Registration\<close>

text \<open>
  The loop of each registration function walks the list and counts in \<open>retval\<close>; it
  leaves with \<open>None\<close> at the \<^verbatim>\<open>return -EINVAL\<close> inside the loop and with the count
  when the list is exhausted. \<open>calloc_ok\<close> says whether the one \<^verbatim>\<open>calloc\<close> of the call
  succeeds.
\<close>

fun iio_register_attribute_loop :: "attribute \<Rightarrow> attribute list \<Rightarrow> int \<Rightarrow> fault + int option" where
  "iio_register_attribute_loop attr [] retval = Inr (Some retval)"
| "iio_register_attribute_loop attr (attribute # rest) retval =
     (case strcmp_zero (c_str ATTR_NAME_MAX_SIZE (attr_name attr))
                       (c_str ATTR_NAME_MAX_SIZE (attr_name attribute)) of
        Inl f \<Rightarrow> Inl f
      | Inr eq \<Rightarrow>
          if eq then Inr None
          else iio_register_attribute_loop attr rest (retval + 1))"

definition iio_register_attribute ::
  "bool \<Rightarrow> attribute \<Rightarrow> attribute list \<Rightarrow> fault + (int \<times> attribute list)" where
  "iio_register_attribute calloc_ok attr list =
     (case list of
        [] \<Rightarrow> if \<not> calloc_ok then Inr (- ENOMEM, []) else Inr (1, [attr])
      | _ # _ \<Rightarrow>
          (case iio_register_attribute_loop attr list 0 of
             Inl f \<Rightarrow> Inl f
           | Inr None \<Rightarrow> Inr (- EINVAL, list)
           | Inr (Some retval) \<Rightarrow>
               if \<not> calloc_ok then Inr (- EINVAL, list)
               else Inr (retval + 1, list @ [attr])))"

fun iio_register_channel_loop :: "channel \<Rightarrow> channel list \<Rightarrow> int \<Rightarrow> fault + int option" where
  "iio_register_channel_loop channel [] retval = Inr (Some retval)"
| "iio_register_channel_loop channel (chn # rest) retval =
     (case strcmp_zero (c_str TYPE_STR_MAX_SIZE (chn_type chn))
                       (c_str TYPE_STR_MAX_SIZE (chn_type channel)) of
        Inl f \<Rightarrow> Inl f
      | Inr type_eq \<Rightarrow>
          if \<not> type_eq then iio_register_channel_loop channel rest (retval + 1)
          else
            (case strcmp_zero (c_str CHN_ID_STR_MAX_SIZE (chn_id chn))
                              (c_str CHN_ID_STR_MAX_SIZE (chn_id channel)) of
               Inl f \<Rightarrow> Inl f
             | Inr id_eq \<Rightarrow>
                 if id_eq then Inr None
                 else iio_register_channel_loop channel rest (retval + 1)))"

definition iio_register_channel ::
  "bool \<Rightarrow> channel \<Rightarrow> channel list \<Rightarrow> fault + (int \<times> channel list)" where
  "iio_register_channel calloc_ok channel list =
     (case list of
        [] \<Rightarrow> if \<not> calloc_ok then Inr (- ENOMEM, []) else Inr (1, [channel])
      | _ # _ \<Rightarrow>
          (case iio_register_channel_loop channel list 0 of
             Inl f \<Rightarrow> Inl f
           | Inr None \<Rightarrow> Inr (- EINVAL, list)
           | Inr (Some retval) \<Rightarrow>
               if \<not> calloc_ok then Inr (- EINVAL, list)
               else Inr (retval + 1, list @ [channel])))"

text \<open>
  The device loop compares the names and then \<^verbatim>\<open>IIO_ID(dev) == IIO_ID(dev)\<close>: the
  identifier of the list element with itself.
\<close>

fun iio_register_device_loop :: "'w device \<Rightarrow> 'w device list \<Rightarrow> int \<Rightarrow> fault + int option" where
  "iio_register_device_loop device [] retval = Inr (Some retval)"
| "iio_register_device_loop device (dev # rest) retval =
     (case strcmp_zero (c_str DEV_NAME_STR_MAX_SIZE (dev_name dev))
                       (c_str DEV_NAME_STR_MAX_SIZE (dev_name device)) of
        Inl f \<Rightarrow> Inl f
      | Inr name_eq \<Rightarrow>
          if name_eq \<or> dev_id dev = dev_id dev then Inr None
          else iio_register_device_loop device rest (retval + 1))"

definition iio_register_device ::
  "bool \<Rightarrow> 'w device \<Rightarrow> 'w device list \<Rightarrow> fault + (int \<times> 'w device list)" where
  "iio_register_device calloc_ok device list =
     (case list of
        [] \<Rightarrow> if \<not> calloc_ok then Inr (- ENOMEM, []) else Inr (1, [device])
      | _ # _ \<Rightarrow>
          (case iio_register_device_loop device list 0 of
             Inl f \<Rightarrow> Inl f
           | Inr None \<Rightarrow> Inr (- EINVAL, list)
           | Inr (Some retval) \<Rightarrow>
               if \<not> calloc_ok then Inr (- EINVAL, list)
               else Inr (retval + 1, list @ [device])))"

section \<open>The descriptor renderer\<close>

text \<open>The preamble, the constant \<^verbatim>\<open>dtd\<close> of \<^verbatim>\<open>iio.c\<close>.\<close>

definition dtd :: string where
  \<open>dtd =
     ''<?xml version="1.0" encoding="utf-8"?>'' @
     ''<!DOCTYPE context ['' @
     ''<!ELEMENT context (device)*>'' @
     ''<!ELEMENT device (channel | attribute | debug-attribute | buffer-attribute)*>'' @
     ''<!ELEMENT channel (scan-element?, attribute*)>'' @
     ''<!ELEMENT attribute EMPTY>'' @
     ''<!ELEMENT scan-element EMPTY>'' @
     ''<!ELEMENT debug-attribute EMPTY>'' @
     ''<!ELEMENT buffer-attribute EMPTY>'' @
     ''<!ATTLIST context name CDATA #REQUIRED description CDATA #IMPLIED>'' @
     ''<!ATTLIST device id CDATA #REQUIRED name CDATA #IMPLIED>'' @
     ''<!ATTLIST channel id CDATA #REQUIRED type (input|output) #REQUIRED name CDATA #IMPLIED>'' @
     ''<!ATTLIST scan-element index CDATA #REQUIRED format CDATA #REQUIRED scale CDATA #IMPLIED>'' @
     ''<!ATTLIST attribute name CDATA #REQUIRED filename CDATA #IMPLIED>'' @
     ''<!ATTLIST debug-attribute name CDATA #REQUIRED>'' @
     ''<!ATTLIST buffer-attribute name CDATA #REQUIRED value CDATA #IMPLIED>]>''\<close>

text \<open>
  The renderer keeps \<open>index\<close>, the length the document will have after the next group
  of \<^verbatim>\<open>strcat\<close> calls, beside the buffer \<open>xml\<close> (its contents as a string). Each group
  is: add the lengths to \<open>index\<close>, \<^verbatim>\<open>assert(index < IIO_XML_SIZE)\<close>, append. A fault
  carries the contents of the buffer at that moment. \<open>index\<close> is an
  \<^verbatim>\<open>unsigned int\<close> that every assertion keeps below \<open>IIO_XML_SIZE\<close>, so it never
  wraps and is a \<open>nat\<close> here.
\<close>

type_synonym xml_state = "nat \<times> string"

definition xml_strcat :: "xml_state \<Rightarrow> nat \<Rightarrow> string \<Rightarrow> (fault \<times> string) + xml_state" where
  "xml_strcat st n s =
     (case st of (index, xml) \<Rightarrow>
        let index = index + n in
        if \<not> index < IIO_XML_SIZE then Inl (AssertFail, xml)
        else Inr (index, xml @ s))"

text \<open>
  The three \<^verbatim>\<open>for_each\<close> macros of \<^verbatim>\<open>iio.h\<close> as the renderer uses them: the body
  runs on every element in order and updates \<open>index\<close> and the buffer; a fault ends the
  walk. The macro reads the element of the first node before any test, so a null list is
  a null dereference.
\<close>

fun xml_for_each_loop ::
  "(xml_state \<Rightarrow> 'a \<Rightarrow> (fault \<times> string) + xml_state) \<Rightarrow> xml_state \<Rightarrow> 'a list \<Rightarrow>
   (fault \<times> string) + xml_state" where
  "xml_for_each_loop body st [] = Inr st"
| "xml_for_each_loop body st (x # rest) =
     (case body st x of
        Inl e \<Rightarrow> Inl e
      | Inr st \<Rightarrow> xml_for_each_loop body st rest)"

definition xml_for_each ::
  "(xml_state \<Rightarrow> 'a \<Rightarrow> (fault \<times> string) + xml_state) \<Rightarrow> xml_state \<Rightarrow> 'a list \<Rightarrow>
   (fault \<times> string) + xml_state" where
  "xml_for_each body st list =
     (case list of
        [] \<Rightarrow> Inl (NullDeref, snd st)
      | _ # _ \<Rightarrow> xml_for_each_loop body st list)"

text \<open>The body of the loop of \<^verbatim>\<open>populate_attributes\<close>.\<close>

definition populate_attribute :: "xml_state \<Rightarrow> attribute \<Rightarrow> (fault \<times> string) + xml_state" where
  \<open>populate_attribute st attr =
     (case c_str ATTR_NAME_MAX_SIZE (attr_name attr) of
        None \<Rightarrow> Inl (OverRead, snd st)
      | Some name \<Rightarrow>
          xml_strcat st
            (length ''<attribute name="'' + length name + length ''" />'')
            (''<attribute name="'' @ name @ ''" />''))\<close>

text \<open>\<open>level\<close> is only used by code that is compiled out.\<close>

definition populate_attributes ::
  "xml_state \<Rightarrow> attribute list \<Rightarrow> nat \<Rightarrow> (fault \<times> string) + xml_state" where
  "populate_attributes st attrs level = xml_for_each populate_attribute st attrs"

text \<open>The body of the channel loop of \<^verbatim>\<open>generate_xml\<close>.\<close>

definition generate_xml_channel :: "xml_state \<Rightarrow> channel \<Rightarrow> (fault \<times> string) + xml_state" where
  \<open>generate_xml_channel st channel =
     (case c_str CHN_ID_STR_MAX_SIZE (chn_id channel) of
        None \<Rightarrow> Inl (OverRead, snd st)
      | Some id' \<Rightarrow>
     (case c_str TYPE_STR_MAX_SIZE (chn_type channel) of
        None \<Rightarrow> Inl (OverRead, snd st)
      | Some type \<Rightarrow>
     (case xml_strcat st
             (length ''<channel id="'' + length id' + length ''" type="'' + length type + 2)
             (''<channel id="'' @ id' @ ''" type="'' @ type @ ''">'') of
        Inl e \<Rightarrow> Inl e
      | Inr st \<Rightarrow>
     (case populate_attributes st (chn_attrs channel) 3 of
        Inl e \<Rightarrow> Inl e
      | Inr st \<Rightarrow> xml_strcat st (length ''</channel>'') ''</channel>''))))\<close>

text \<open>
  The body of the device loop of \<^verbatim>\<open>generate_xml\<close>. The identifier is printed with
  \<^verbatim>\<open>"%d"\<close> (as a signed \<^verbatim>\<open>int\<close>) into \<^verbatim>\<open>char id_str[4]\<close>: three characters and
  the terminator fit.
\<close>

definition generate_xml_device :: "xml_state \<Rightarrow> 'w device \<Rightarrow> (fault \<times> string) + xml_state" where
  \<open>generate_xml_device st device =
     (let id_str = sprintf_d (sint (dev_id device)) in
      if \<not> length id_str < 4 then Inl (BufferOverflow, snd st)
      else
     (case c_str DEV_NAME_STR_MAX_SIZE (dev_name device) of
        None \<Rightarrow> Inl (OverRead, snd st)
      | Some name \<Rightarrow>
     (case xml_strcat st
             (length ''<device id="'' + length id_str + length ''" name="'' + length name + 2)
             (''<device id="'' @ id_str @ ''" name="'' @ name @ ''">'') of
        Inl e \<Rightarrow> Inl e
      | Inr st \<Rightarrow>
     (case xml_for_each generate_xml_channel st (dev_channels device) of
        Inl e \<Rightarrow> Inl e
      | Inr st \<Rightarrow>
     (case populate_attributes st (dev_attrs device) 2 of
        Inl e \<Rightarrow> Inl e
      | Inr st \<Rightarrow> xml_strcat st (length ''</device>'') ''</device>'')))))\<close>

text \<open>
  \<^verbatim>\<open>generate_xml\<close> starts with \<^verbatim>\<open>strcpy(xml, dtd)\<close>, which replaces what the buffer
  held, and returns the context with the buffer filled.
\<close>

definition generate_xml :: "'w iio_context \<Rightarrow> (fault \<times> string) + 'w iio_context" where
  \<open>generate_xml context =
     (let index = length dtd in
      if \<not> IIO_XML_SIZE > index then Inl (AssertFail, ctx_xml context)
      else
     (case c_str CONTEXT_NAME_MAX_SIZE (ctx_name context) of
        None \<Rightarrow> Inl (OverRead, dtd)
      | Some name \<Rightarrow>
     (case xml_strcat (index, dtd)
             (length ''<context name="'' + length name + 2)
             (''<context name="'' @ name @ ''" '') of
        Inl e \<Rightarrow> Inl e
      | Inr st \<Rightarrow>
     (case c_str CONTEXT_DESC_MAX_SIZE (ctx_description context) of
        None \<Rightarrow> Inl (OverRead, snd st)
      | Some description \<Rightarrow>
     (case xml_strcat st
             (length ''description="'' + length description + 2)
             (''description="'' @ description @ ''">'') of
        Inl e \<Rightarrow> Inl e
      | Inr st \<Rightarrow>
     (case xml_for_each generate_xml_device st (ctx_devices context) of
        Inl e \<Rightarrow> Inl e
      | Inr st \<Rightarrow>
     (case xml_strcat st (length ''</context>'') ''</context>'' of
        Inl e \<Rightarrow> Inl e
      | Inr st \<Rightarrow> Inr (context\<lparr>ctx_xml := snd st\<rparr>))))))))\<close>

definition get_xml :: "'w iio_context \<Rightarrow> string" where
  "get_xml context = ctx_xml context"

section \<open>Initialisation\<close>

text \<open>
  \<^verbatim>\<open>iio_init\<close> fills the one static context (\<open>context\<close> is its state before the
  call) and renders the descriptor. The two byte-stream callbacks are only checked against
  null here: the protocol engine that uses them is outside this library.
\<close>

definition iio_init ::
  "'w iio_context \<Rightarrow> string \<Rightarrow> string \<Rightarrow> 'w device list \<Rightarrow> 'c option \<Rightarrow> 'c option \<Rightarrow>
   (fault \<times> string) + 'w iio_context" where
  "iio_init context ctx_name' ctx_desc devices write_cb read_cb =
     (if devices = [] \<or> write_cb = None \<or> read_cb = None
      then Inl (AssertFail, ctx_xml context)
      else generate_xml
             (context\<lparr>ctx_name := strncpy ctx_name' CONTEXT_NAME_MAX_SIZE,
                      ctx_description := strncpy ctx_desc CONTEXT_DESC_MAX_SIZE,
                      ctx_devices := devices\<rparr>))"

section \<open>The dispatcher\<close>

text \<open>
  The macros \<^verbatim>\<open>for_each_device\<close>, \<^verbatim>\<open>for_each_channel\<close> and
  \<^verbatim>\<open>for_each_attribute\<close> are one loop: they read the element of the first node before
  any test (a null list is a null dereference), then run the body on every element in
  order. The body either returns from the function (\<open>Some\<close>) or falls through to the
  next element (\<open>None\<close>); \<open>after\<close> is the code behind the loop.
\<close>

fun for_each_loop :: "'a list \<Rightarrow> ('a \<Rightarrow> 'r option) \<Rightarrow> 'r option" where
  "for_each_loop [] body = None"
| "for_each_loop (x # rest) body =
     (case body x of Some r \<Rightarrow> Some r | None \<Rightarrow> for_each_loop rest body)"

definition for_each :: "'a list \<Rightarrow> ('a \<Rightarrow> (fault + 'r) option) \<Rightarrow> fault + 'r \<Rightarrow> fault + 'r" where
  "for_each list body after =
     (case list of
        [] \<Rightarrow> Inl NullDeref
      | _ # _ \<Rightarrow> (case for_each_loop list body of Some r \<Rightarrow> r | None \<Rightarrow> after))"

text \<open>
  \<^verbatim>\<open>atoi(device) == IIO_ID(dev)\<close> compares an \<^verbatim>\<open>int\<close> with an
  \<^verbatim>\<open>unsigned int\<close>: the \<^verbatim>\<open>int\<close> is converted to \<^verbatim>\<open>unsigned int\<close>.
\<close>

definition device_matches :: "string \<Rightarrow> 'w device \<Rightarrow> fault + bool" where
  "device_matches device dev =
     (case atoi device of
        None \<Rightarrow> Inl IntOverflow
      | Some n \<Rightarrow> Inr ((word_of_int n :: 32 word) = dev_id dev))"

definition read_attr ::
  "'w iio_context \<Rightarrow> string \<Rightarrow> string \<Rightarrow> buf_ptr \<Rightarrow> size_t \<Rightarrow> iio_attr_type \<Rightarrow> 'w \<Rightarrow>
   fault + (int \<times> 'w)" where
  "read_attr context device attr buf len type w =
     for_each (ctx_devices context)
       (\<lambda>dev.
          case device_matches device dev of
            Inl f \<Rightarrow> Some (Inl f)
          | Inr m \<Rightarrow>
              if m then
                Some (for_each (dev_attrs dev)
                  (\<lambda>attribute.
                     case strcmp_zero (c_str ATTR_NAME_MAX_SIZE (attr_name attribute)) (Some attr) of
                       Inl f \<Rightarrow> Some (Inl f)
                     | Inr eq \<Rightarrow>
                         if eq then
                           Some (case acc_read_attr (dev_attr_accessors dev) of
                                   None \<Rightarrow> Inr (- ENOSYS, w)
                                 | Some f \<Rightarrow> Inr (f (dev_data dev) attr buf len type w))
                         else None)
                  (Inr (- ENOENT, w)))
              else None)
       (Inr (- ENOENT, w))"

definition write_attr ::
  "'w iio_context \<Rightarrow> string \<Rightarrow> string \<Rightarrow> buf_ptr \<Rightarrow> size_t \<Rightarrow> iio_attr_type \<Rightarrow> 'w \<Rightarrow>
   fault + (int \<times> 'w)" where
  "write_attr context device attr buf len type w =
     for_each (ctx_devices context)
       (\<lambda>dev.
          case device_matches device dev of
            Inl f \<Rightarrow> Some (Inl f)
          | Inr m \<Rightarrow>
              if m then
                Some (for_each (dev_attrs dev)
                  (\<lambda>attribute.
                     case strcmp_zero (c_str ATTR_NAME_MAX_SIZE (attr_name attribute)) (Some attr) of
                       Inl f \<Rightarrow> Some (Inl f)
                     | Inr eq \<Rightarrow>
                         if eq then
                           Some (case acc_write_attr (dev_attr_accessors dev) of
                                   None \<Rightarrow> Inr (- ENOSYS, w)
                                 | Some f \<Rightarrow> Inr (f (dev_data dev) attr buf len type w))
                         else None)
                  (Inr (- ENOENT, w)))
              else None)
       (Inr (- ENOENT, w))"

definition ch_read_attr ::
  "'w iio_context \<Rightarrow> string \<Rightarrow> string \<Rightarrow> bool \<Rightarrow> string \<Rightarrow> buf_ptr \<Rightarrow> size_t \<Rightarrow> 'w \<Rightarrow>
   fault + (int \<times> 'w)" where
  "ch_read_attr context device channel ch_out attr buf len w =
     for_each (ctx_devices context)
       (\<lambda>dev.
          case device_matches device dev of
            Inl f \<Rightarrow> Some (Inl f)
          | Inr m \<Rightarrow>
              if m then
                Some (for_each (dev_channels dev)
                  (\<lambda>chn.
                     case strcmp_zero (c_str CHN_ID_STR_MAX_SIZE (chn_id chn)) (Some channel) of
                       Inl f \<Rightarrow> Some (Inl f)
                     | Inr chn_eq \<Rightarrow>
                         if chn_eq then
                           Some (for_each (chn_attrs chn)
                             (\<lambda>attribute.
                                case strcmp_zero (c_str ATTR_NAME_MAX_SIZE (attr_name attribute))
                                                 (Some attr) of
                                  Inl f \<Rightarrow> Some (Inl f)
                                | Inr eq \<Rightarrow>
                                    if eq then
                                      Some (case chn_read_attr (dev_chn_accessors dev) of
                                              None \<Rightarrow> Inr (- ENOSYS, w)
                                            | Some f \<Rightarrow>
                                                Inr (f (dev_data dev) channel ch_out attr buf len w))
                                    else None)
                             (Inr (- ENOENT, w)))
                         else None)
                  (Inr (- ENOENT, w)))
              else None)
       (Inr (- ENOENT, w))"

definition ch_write_attr ::
  "'w iio_context \<Rightarrow> string \<Rightarrow> string \<Rightarrow> bool \<Rightarrow> string \<Rightarrow> buf_ptr \<Rightarrow> size_t \<Rightarrow> 'w \<Rightarrow>
   fault + (int \<times> 'w)" where
  "ch_write_attr context device channel ch_out attr buf len w =
     for_each (ctx_devices context)
       (\<lambda>dev.
          case device_matches device dev of
            Inl f \<Rightarrow> Some (Inl f)
          | Inr m \<Rightarrow>
              if m then
                Some (for_each (dev_channels dev)
                  (\<lambda>chn.
                     case strcmp_zero (c_str CHN_ID_STR_MAX_SIZE (chn_id chn)) (Some channel) of
                       Inl f \<Rightarrow> Some (Inl f)
                     | Inr chn_eq \<Rightarrow>
                         if chn_eq then
                           Some (for_each (chn_attrs chn)
                             (\<lambda>attribute.
                                case strcmp_zero (c_str ATTR_NAME_MAX_SIZE (attr_name attribute))
                                                 (Some attr) of
                                  Inl f \<Rightarrow> Some (Inl f)
                                | Inr eq \<Rightarrow>
                                    if eq then
                                      Some (case chn_write_attr (dev_chn_accessors dev) of
                                              None \<Rightarrow> Inr (- ENOSYS, w)
                                            | Some f \<Rightarrow>
                                                Inr (f (dev_data dev) channel ch_out attr buf len w))
                                    else None)
                             (Inr (- ENOENT, w)))
                         else None)
                  (Inr (- ENOENT, w)))
              else None)
       (Inr (- ENOENT, w))"

definition read_data ::
  "'w iio_context \<Rightarrow> string \<Rightarrow> buf_ptr \<Rightarrow> size_t \<Rightarrow> size_t \<Rightarrow> 'w \<Rightarrow> fault + (int \<times> 'w)" where
  "read_data context device buf offset bytes_count w =
     for_each (ctx_devices context)
       (\<lambda>dev.
          case device_matches device dev of
            Inl f \<Rightarrow> Some (Inl f)
          | Inr m \<Rightarrow>
              if m then
                Some (case chn_read_data (dev_chn_accessors dev) of
                        None \<Rightarrow> Inr (- ENOSYS, w)
                      | Some f \<Rightarrow> Inr (f (dev_data dev) buf offset bytes_count w))
              else None)
       (Inr (- ENOENT, w))"

definition write_data ::
  "'w iio_context \<Rightarrow> string \<Rightarrow> buf_ptr \<Rightarrow> size_t \<Rightarrow> size_t \<Rightarrow> 'w \<Rightarrow> fault + (int \<times> 'w)" where
  "write_data context device buf offset bytes_count w =
     for_each (ctx_devices context)
       (\<lambda>dev.
          case device_matches device dev of
            Inl f \<Rightarrow> Some (Inl f)
          | Inr m \<Rightarrow>
              if m then
                Some (case chn_write_data (dev_chn_accessors dev) of
                        None \<Rightarrow> Inr (- ENOSYS, w)
                      | Some f \<Rightarrow> Inr (f (dev_data dev) buf offset bytes_count w))
              else None)
       (Inr (- ENOENT, w))"

section \<open>The descriptor as the specification describes it\<close>

text \<open>
  The document the specification describes: the preamble, then the context element, which
  holds one element for each device in the order of the registry; a device element holds
  one element for each of its channels in order, each with one element for each of its
  attributes in order, and then one element for each attribute of the device in order.
\<close>

definition attribute_element :: "attribute \<Rightarrow> string" where
  \<open>attribute_element a = ''<attribute name="'' @ attr_name a @ ''" />''\<close>

definition channel_element :: "channel \<Rightarrow> string" where
  \<open>channel_element c =
     ''<channel id="'' @ chn_id c @ ''" type="'' @ chn_type c @ ''">'' @
     concat (map attribute_element (chn_attrs c)) @
     ''</channel>''\<close>

definition device_element :: "'w device \<Rightarrow> string" where
  \<open>device_element d =
     ''<device id="'' @ sprintf_d (sint (dev_id d)) @ ''" name="'' @ dev_name d @ ''">'' @
     concat (map channel_element (dev_channels d)) @
     concat (map attribute_element (dev_attrs d)) @
     ''</device>''\<close>

definition context_element :: "'w iio_context \<Rightarrow> string" where
  \<open>context_element c =
     ''<context name="'' @ ctx_name c @ ''" description="'' @ ctx_description c @ ''">'' @
     concat (map device_element (ctx_devices c)) @
     ''</context>''\<close>

definition descriptor :: "'w iio_context \<Rightarrow> string" where
  "descriptor c = dtd @ context_element c"

text \<open>
  What the renderer needs of a registry besides room in the buffer: every list it walks is
  not null, every character array holds a terminator, and every device identifier prints
  in three characters.
\<close>

definition attribute_ok :: "attribute \<Rightarrow> bool" where
  "attribute_ok a = (length (attr_name a) < ATTR_NAME_MAX_SIZE)"

definition channel_ok :: "channel \<Rightarrow> bool" where
  "channel_ok c =
     (length (chn_id c) < CHN_ID_STR_MAX_SIZE \<and> length (chn_type c) < TYPE_STR_MAX_SIZE \<and>
      chn_attrs c \<noteq> [] \<and> list_all attribute_ok (chn_attrs c))"

definition device_ok :: "'w device \<Rightarrow> bool" where
  "device_ok d =
     (length (sprintf_d (sint (dev_id d))) < 4 \<and> length (dev_name d) < DEV_NAME_STR_MAX_SIZE \<and>
      dev_channels d \<noteq> [] \<and> list_all channel_ok (dev_channels d) \<and>
      dev_attrs d \<noteq> [] \<and> list_all attribute_ok (dev_attrs d))"

definition context_ok :: "'w iio_context \<Rightarrow> bool" where
  "context_ok c =
     (length (ctx_name c) < CONTEXT_NAME_MAX_SIZE \<and>
      length (ctx_description c) < CONTEXT_DESC_MAX_SIZE \<and>
      ctx_devices c \<noteq> [] \<and> list_all device_ok (ctx_devices c))"

definition renderable :: "'w iio_context \<Rightarrow> bool" where
  "renderable c = (context_ok c \<and> length (descriptor c) < IIO_XML_SIZE)"

section \<open>Resolution as the specification describes it\<close>

text \<open>
  The specification resolves a request by scanning for the first match: the first device
  of the registry with the numeric identifier, then the first attribute of a collection
  with the name, or the first channel with the identifier.
\<close>

definition find_device :: "'w iio_context \<Rightarrow> 32 word \<Rightarrow> 'w device option" where
  "find_device c n = find (\<lambda>d. dev_id d = n) (ctx_devices c)"

definition find_attribute :: "attribute list \<Rightarrow> string \<Rightarrow> attribute option" where
  "find_attribute attrs name = find (\<lambda>a. attr_name a = name) attrs"

definition find_channel :: "channel list \<Rightarrow> string \<Rightarrow> channel option" where
  "find_channel chans id' = find (\<lambda>c. chn_id c = id') chans"

text \<open>
  A textual device identifier that does not start with a decimal number (after optional
  white space and an optional sign).
\<close>

definition non_numeric :: "string \<Rightarrow> bool" where
  "non_numeric s =
     (case dropWhile isspace s of
        [] \<Rightarrow> True
      | c # cs \<Rightarrow>
          if c = CHR ''-'' \<or> c = CHR ''+''
          then (case cs of [] \<Rightarrow> True | d # _ \<Rightarrow> \<not> isdigit d)
          else \<not> isdigit c)"

section \<open>Notions used in the proofs\<close>

text \<open>
  \<open>renders f ok E\<close>: from any state with room, the step \<open>f\<close> appends exactly \<open>E\<close>
  when \<open>ok\<close> holds and \<open>E\<close> fits below \<open>IIO_XML_SIZE\<close>, and does not return
  otherwise; when it faults, the buffer holds what it held before and a part of \<open>E\<close>,
  is shorter than \<open>IIO_XML_SIZE\<close>, and the fault is a failed assertion if \<open>ok\<close>
  holds.
\<close>

definition renders :: "(xml_state \<Rightarrow> (fault \<times> string) + xml_state) \<Rightarrow> bool \<Rightarrow> string \<Rightarrow> bool" where
  "renders f ok E \<longleftrightarrow>
     (\<forall>i x st. i < IIO_XML_SIZE \<longrightarrow>
        (f (i, x) = Inr st \<longleftrightarrow> ok \<and> i + length E < IIO_XML_SIZE \<and> st = (i + length E, x @ E))) \<and>
     (\<forall>x fl b. length x < IIO_XML_SIZE \<longrightarrow> f (length x, x) = Inl (fl, b) \<longrightarrow>
        prefix x b \<and> prefix b (x @ E) \<and> length b < IIO_XML_SIZE \<and> (ok \<longrightarrow> fl = AssertFail))"

text \<open>What \<^verbatim>\<open>generate_xml\<close> does after \<^verbatim>\<open>strcpy(xml, dtd)\<close>, as one step.\<close>

definition generate_xml_body :: "'w iio_context \<Rightarrow> xml_state \<Rightarrow> (fault \<times> string) + xml_state" where
  \<open>generate_xml_body c st =
     (if length (ctx_name c) < CONTEXT_NAME_MAX_SIZE
      then (case xml_strcat st (length (''<context name="'' @ ctx_name c @ ''" ''))
                   (''<context name="'' @ ctx_name c @ ''" '') of
              Inl e \<Rightarrow> Inl e
            | Inr st \<Rightarrow>
                (if length (ctx_description c) < CONTEXT_DESC_MAX_SIZE
                 then (case xml_strcat st (length (''description="'' @ ctx_description c @ ''">''))
                              (''description="'' @ ctx_description c @ ''">'') of
                         Inl e \<Rightarrow> Inl e
                       | Inr st \<Rightarrow>
                           (case xml_for_each generate_xml_device st (ctx_devices c) of
                              Inl e \<Rightarrow> Inl e
                            | Inr st \<Rightarrow> xml_strcat st (length ''</context>'') ''</context>''))
                 else Inl (OverRead, snd st)))
      else Inl (OverRead, snd st))\<close>

section \<open>The example program and other concrete registries\<close>

text \<open>
  \<^verbatim>\<open>example2.c\<close>: one device \<open>adc\<close> with identifier 0, two input channels and three
  attributes; only the two read accessors for attributes are installed. The accessors
  answer with \<^verbatim>\<open>snprintf\<close> into the caller's buffer; the world they run on is the
  contents of the buffers.
\<close>

type_synonym memory = "buf_ptr \<Rightarrow> string"

definition snprintf :: "buf_ptr \<Rightarrow> size_t \<Rightarrow> string \<Rightarrow> memory \<Rightarrow> int \<times> memory" where
  "snprintf buf len s w =
     (int (length s), if len = 0 then w else w(buf := take (unat len - 1) s))"

definition read_dev_attr ::
  "uintptr \<Rightarrow> string \<Rightarrow> buf_ptr \<Rightarrow> size_t \<Rightarrow> iio_attr_type \<Rightarrow> memory \<Rightarrow> int \<times> memory" where
  "read_dev_attr data attr buf len type w =
     (case type of
        IIO_ATTR_TYPE_DEVICE \<Rightarrow> snprintf buf len ''1000'' w
      | IIO_ATTR_TYPE_DEBUG \<Rightarrow> snprintf buf len ''0'' w
      | IIO_ATTR_TYPE_BUFFER \<Rightarrow> snprintf buf len ''8'' w)"

definition read_ch_attr ::
  "uintptr \<Rightarrow> string \<Rightarrow> bool \<Rightarrow> string \<Rightarrow> buf_ptr \<Rightarrow> size_t \<Rightarrow> memory \<Rightarrow> int \<times> memory" where
  "read_ch_attr data channel ch_out attr buf len w =
     (if ch_out then (- ENOENT, w)
      else if channel = ''voltage0'' then
        (if attr = ''scale'' then snprintf buf len ''0.033'' w
         else if attr = ''raw'' then snprintf buf len ''256'' w
         else (- ENOENT, w))
      else if channel = ''voltage1'' then
        (if attr = ''scale'' then snprintf buf len ''0.033'' w
         else if attr = ''raw'' then snprintf buf len ''128'' w
         else (- ENOENT, w))
      else (- ENOENT, w))"

definition example_attr_accessors :: "memory attr_accessors" where
  "example_attr_accessors = \<lparr>acc_read_attr = Some read_dev_attr, acc_write_attr = None\<rparr>"

definition example_chn_accessors :: "memory chn_accessors" where
  "example_chn_accessors =
     \<lparr>chn_read_attr = Some read_ch_attr, chn_write_attr = None,
      chn_read_data = None, chn_write_data = None\<rparr>"

text \<open>The zero-initialised static structures the example fills.\<close>

definition zero_device :: "memory device" where
  "zero_device =
     \<lparr>dev_name = [], dev_id = 0, dev_data = 0, dev_channels = [], dev_attrs = [],
      dev_attr_accessors = \<lparr>acc_read_attr = None, acc_write_attr = None\<rparr>,
      dev_chn_accessors = \<lparr>chn_read_attr = None, chn_write_attr = None,
                            chn_read_data = None, chn_write_data = None\<rparr>\<rparr>"

definition zero_channel :: channel where
  "zero_channel = \<lparr>chn_id = [], chn_type = [], chn_attrs = []\<rparr>"

definition zero_attribute :: attribute where
  "zero_attribute = \<lparr>attr_name = []\<rparr>"

definition voltage0 :: channel where
  "voltage0 = \<lparr>chn_id = ''voltage0'', chn_type = ''input'',
     chn_attrs = [\<lparr>attr_name = ''scale''\<rparr>, \<lparr>attr_name = ''raw''\<rparr>]\<rparr>"

definition voltage1 :: channel where
  "voltage1 = \<lparr>chn_id = ''voltage1'', chn_type = ''input'',
     chn_attrs = [\<lparr>attr_name = ''scale''\<rparr>, \<lparr>attr_name = ''raw''\<rparr>]\<rparr>"

definition adc :: "memory device" where
  "adc = \<lparr>dev_name = ''adc'', dev_id = 0, dev_data = 0,
     dev_channels = [voltage0, voltage1],
     dev_attrs = [\<lparr>attr_name = ''sample_rate''\<rparr>, \<lparr>attr_name = ''direct_reg_access''\<rparr>,
                  \<lparr>attr_name = ''lenght_align_bytes''\<rparr>],
     dev_attr_accessors = example_attr_accessors,
     dev_chn_accessors = example_chn_accessors\<rparr>"

text \<open>
  The static context of \<^verbatim>\<open>iio.c\<close> before \<^verbatim>\<open>iio_init\<close> (zero-initialised), the
  context of the example as \<^verbatim>\<open>iio_init\<close> fills it, and the same context with the
  descriptor rendered.
\<close>

definition static_context :: "'w iio_context" where
  "static_context = \<lparr>ctx_name = [], ctx_description = [], ctx_devices = [], ctx_xml = []\<rparr>"

definition tiny_context :: "memory iio_context" where
  "tiny_context =
     \<lparr>ctx_name = ''tiny'', ctx_description = ''Tiny IIOD'', ctx_devices = [adc], ctx_xml = []\<rparr>"

definition tiny_served :: "memory iio_context" where
  "tiny_served = tiny_context\<lparr>ctx_xml := descriptor tiny_context\<rparr>"

definition empty_memory :: memory where
  "empty_memory = (\<lambda>buf. [])"

text \<open>
  A second device, \<open>probe\<close>, with identifier 1, one input channel and every accessor
  installed: each accessor answers into the caller's buffer, the channel accessors with
  the direction flag they were called with. \<open>lab_context\<close> holds both devices; its list
  is built by hand, since \<^verbatim>\<open>iio_register_device\<close> registers one device only (see the
  theorem about it below).
\<close>

definition probe_dev_attr ::
  "uintptr \<Rightarrow> string \<Rightarrow> buf_ptr \<Rightarrow> size_t \<Rightarrow> iio_attr_type \<Rightarrow> memory \<Rightarrow> int \<times> memory" where
  "probe_dev_attr data attr buf len type w = snprintf buf len attr w"

definition probe_ch_attr ::
  "uintptr \<Rightarrow> string \<Rightarrow> bool \<Rightarrow> string \<Rightarrow> buf_ptr \<Rightarrow> size_t \<Rightarrow> memory \<Rightarrow> int \<times> memory" where
  "probe_ch_attr data channel ch_out attr buf len w =
     snprintf buf len (if ch_out then ''out'' else ''in'') w"

definition probe_data ::
  "uintptr \<Rightarrow> buf_ptr \<Rightarrow> size_t \<Rightarrow> size_t \<Rightarrow> memory \<Rightarrow> int \<times> memory" where
  "probe_data data buf offset bytes_count w = (int (unat bytes_count), w(buf := ''data''))"

definition probe :: "memory device" where
  "probe = \<lparr>dev_name = ''probe'', dev_id = 1, dev_data = 7,
     dev_channels = [\<lparr>chn_id = ''voltage0'', chn_type = ''input'',
                      chn_attrs = [\<lparr>attr_name = ''raw''\<rparr>]\<rparr>],
     dev_attrs = [\<lparr>attr_name = ''mode''\<rparr>],
     dev_attr_accessors =
       \<lparr>acc_read_attr = Some probe_dev_attr, acc_write_attr = Some probe_dev_attr\<rparr>,
     dev_chn_accessors =
       \<lparr>chn_read_attr = Some probe_ch_attr, chn_write_attr = Some probe_ch_attr,
        chn_read_data = Some probe_data, chn_write_data = Some probe_data\<rparr>\<rparr>"

definition lab_context :: "memory iio_context" where
  "lab_context =
     \<lparr>ctx_name = ''lab'', ctx_description = ''Two devices'', ctx_devices = [adc, probe],
      ctx_xml = []\<rparr>"

definition lab_served :: "memory iio_context" where
  "lab_served = lab_context\<lparr>ctx_xml := descriptor lab_context\<rparr>"

text \<open>
  A registry too large for the buffer: the device of the example with 39 attributes whose
  names have 30 characters. Its descriptor has 3080 characters.
\<close>

definition big_attrs :: "attribute list" where
  "big_attrs = map (\<lambda>k. \<lparr>attr_name = ''attribute_with_a_long_name_'' @ dec_nat k\<rparr>) [100..<139]"

definition big_device :: "memory device" where
  "big_device = adc\<lparr>dev_attrs := big_attrs\<rparr>"

definition big_context :: "memory iio_context" where
  "big_context = tiny_context\<lparr>ctx_devices := [big_device]\<rparr>"

text \<open>Two names of more than 32 characters that agree on their first 32.\<close>

definition long_name_low :: string where
  "long_name_low = ''calibration_coefficient_register_low''"

definition long_name_high :: string where
  "long_name_high = ''calibration_coefficient_register_high''"

text \<open>
  \<open>dec_nat\<close> unfolds without end under the simplifier; concrete values are computed
  with its code equation instead.
\<close>

declare dec_nat.simps [simp del]

section \<open>Lemmas about registration\<close>

lemmas sizes = CONTEXT_NAME_MAX_SIZE_def CONTEXT_DESC_MAX_SIZE_def DEV_NAME_STR_MAX_SIZE_def
  CHN_ID_STR_MAX_SIZE_def TYPE_STR_MAX_SIZE_def ATTR_NAME_MAX_SIZE_def

lemma strcmp_zero_c_str:
  "length a < n \<Longrightarrow> length b < m \<Longrightarrow> strcmp_zero (c_str n a) (c_str m b) = Inr (a = b)"
  by (simp add: strcmp_zero_def c_str_def)

lemma iio_register_attribute_loop_fresh:
  "\<forall>a\<in>set list. length (attr_name a) < ATTR_NAME_MAX_SIZE \<Longrightarrow>
   length (attr_name attr) < ATTR_NAME_MAX_SIZE \<Longrightarrow>
   attr_name attr \<notin> attr_name ` set list \<Longrightarrow>
   iio_register_attribute_loop attr list retval = Inr (Some (retval + int (length list)))"
  by (induction list arbitrary: retval) (auto simp: strcmp_zero_c_str)

lemma iio_register_attribute_loop_dup:
  "\<forall>a\<in>set list. length (attr_name a) < ATTR_NAME_MAX_SIZE \<Longrightarrow>
   length (attr_name attr) < ATTR_NAME_MAX_SIZE \<Longrightarrow>
   attr_name attr \<in> attr_name ` set list \<Longrightarrow>
   iio_register_attribute_loop attr list retval = Inr None"
  by (induction list arbitrary: retval) (auto simp: strcmp_zero_c_str)

lemma iio_register_attribute_fresh:
  assumes "\<forall>a\<in>set list. length (attr_name a) < ATTR_NAME_MAX_SIZE"
    and "length (attr_name attr) < ATTR_NAME_MAX_SIZE"
    and "attr_name attr \<notin> attr_name ` set list"
  shows "iio_register_attribute True attr list = Inr (int (length list) + 1, list @ [attr])"
  using iio_register_attribute_loop_fresh [OF assms, of 0]
  by (cases list) (simp_all add: iio_register_attribute_def)

lemma iio_register_attribute_dup:
  assumes "\<forall>a\<in>set list. length (attr_name a) < ATTR_NAME_MAX_SIZE"
    and "length (attr_name attr) < ATTR_NAME_MAX_SIZE"
    and "attr_name attr \<in> attr_name ` set list"
  shows "iio_register_attribute calloc_ok attr list = Inr (- EINVAL, list)"
  using iio_register_attribute_loop_dup [OF assms, of 0] assms(3)
  by (cases list) (simp_all add: iio_register_attribute_def)

text \<open>
  The device loop leaves at its first element, whatever the new device is: the second
  operand of its test is always true.
\<close>

lemma iio_register_device_nonempty:
  assumes "list \<noteq> []"
    and "length (dev_name (hd list)) < DEV_NAME_STR_MAX_SIZE"
    and "length (dev_name device) < DEV_NAME_STR_MAX_SIZE"
  shows "iio_register_device calloc_ok device list = Inr (- EINVAL, list)"
proof -
  from assms(1) obtain dev rest where l: "list = dev # rest" by (cases list) auto
  with assms have "iio_register_device_loop device list 0 = Inr None"
    by (simp add: strcmp_zero_c_str)
  with l show ?thesis by (simp add: iio_register_device_def)
qed

section \<open>Lemmas about the renderer\<close>

lemma length_dtd: "length dtd = 809"
  by (simp add: dtd_def)

lemma length_dtd_less: "length dtd < IIO_XML_SIZE"
  by (simp add: length_dtd IIO_XML_SIZE_def)

lemma xml_strcat_Inr_iff:
  "xml_strcat (i, x) n s = Inr st \<longleftrightarrow> i + n < IIO_XML_SIZE \<and> st = (i + n, x @ s)"
  by (auto simp: xml_strcat_def Let_def)

lemma xml_strcat_Inl_iff:
  "xml_strcat (i, x) n s = Inl e \<longleftrightarrow> \<not> i + n < IIO_XML_SIZE \<and> e = (AssertFail, x)"
  by (auto simp: xml_strcat_def Let_def)

lemma xml_for_each_loop_Inr_iff:
  assumes step: "\<And>a i x st. a \<in> set xs \<Longrightarrow> i < IIO_XML_SIZE \<Longrightarrow>
      body (i, x) a = Inr st \<longleftrightarrow>
        ok a \<and> i + length (E a) < IIO_XML_SIZE \<and> st = (i + length (E a), x @ E a)"
    and i: "i < IIO_XML_SIZE"
  shows "xml_for_each_loop body (i, x) xs = Inr st \<longleftrightarrow>
           list_all ok xs \<and> i + length (concat (map E xs)) < IIO_XML_SIZE \<and>
           st = (i + length (concat (map E xs)), x @ concat (map E xs))"
  using assms
proof (induction xs arbitrary: i x)
  case Nil
  then show ?case by auto
next
  case (Cons a xs)
  show ?case
  proof (cases "body (i, x) a")
    case (Inl e)
    then have "\<not> (ok a \<and> i + length (E a) < IIO_XML_SIZE)"
      using Cons.prems(1) [of a i x "(i + length (E a), x @ E a)"] Cons.prems(2) by auto
    with Inl show ?thesis by auto
  next
    case (Inr st')
    then have a: "ok a" "i + length (E a) < IIO_XML_SIZE" "st' = (i + length (E a), x @ E a)"
      using Cons.prems(1) [of a i x st'] Cons.prems(2) by auto
    have "xml_for_each_loop body (i + length (E a), x @ E a) xs = Inr st \<longleftrightarrow>
           list_all ok xs \<and> i + length (E a) + length (concat (map E xs)) < IIO_XML_SIZE \<and>
           st = (i + length (E a) + length (concat (map E xs)), (x @ E a) @ concat (map E xs))"
      by (rule Cons.IH [OF _ a(2)]) (use Cons.prems(1) in auto)
    with Inr a show ?thesis by (auto simp: add.assoc)
  qed
qed

lemma xml_for_each_loop_Inl:
  assumes stepR: "\<And>a i x st. a \<in> set xs \<Longrightarrow> i < IIO_XML_SIZE \<Longrightarrow>
      body (i, x) a = Inr st \<longleftrightarrow>
        ok a \<and> i + length (E a) < IIO_XML_SIZE \<and> st = (i + length (E a), x @ E a)"
    and stepL: "\<And>a x fl b. a \<in> set xs \<Longrightarrow> length x < IIO_XML_SIZE \<Longrightarrow>
      body (length x, x) a = Inl (fl, b) \<Longrightarrow>
        prefix x b \<and> prefix b (x @ E a) \<and> length b < IIO_XML_SIZE \<and> (ok a \<longrightarrow> fl = AssertFail)"
    and x: "length x < IIO_XML_SIZE"
    and res: "xml_for_each_loop body (length x, x) xs = Inl (fl, b)"
  shows "prefix x b \<and> prefix b (x @ concat (map E xs)) \<and> length b < IIO_XML_SIZE \<and>
         (list_all ok xs \<longrightarrow> fl = AssertFail)"
  using assms
proof (induction xs arbitrary: x)
  case Nil
  then show ?case by simp
next
  case (Cons a xs)
  show ?case
  proof (cases "body (length x, x) a")
    case (Inl e)
    with Cons.prems(4) have "body (length x, x) a = Inl (fl, b)" by simp
    from Cons.prems(2) [OF _ Cons.prems(3) this]
    have h: "prefix x b" "prefix b (x @ E a)" "length b < IIO_XML_SIZE" "ok a \<longrightarrow> fl = AssertFail"
      by simp_all
    have "prefix (x @ E a) (x @ concat (map E (a # xs)))" by simp
    with h(2) have "prefix b (x @ concat (map E (a # xs)))"
      by (rule prefix_order.trans)
    with h show ?thesis by simp
  next
    case (Inr st')
    then have a: "ok a" "length x + length (E a) < IIO_XML_SIZE"
        "st' = (length x + length (E a), x @ E a)"
      using Cons.prems(1) [of a "length x" x st'] Cons.prems(3) by auto
    have rest: "xml_for_each_loop body (length (x @ E a), x @ E a) xs = Inl (fl, b)"
      using Cons.prems(4) Inr a by simp
    have len: "length (x @ E a) < IIO_XML_SIZE" using a by simp
    have sR: "\<And>a i x st. a \<in> set xs \<Longrightarrow> i < IIO_XML_SIZE \<Longrightarrow>
      body (i, x) a = Inr st \<longleftrightarrow>
        ok a \<and> i + length (E a) < IIO_XML_SIZE \<and> st = (i + length (E a), x @ E a)"
      by (rule Cons.prems(1)) simp_all
    have sL: "\<And>a x fl b. a \<in> set xs \<Longrightarrow> length x < IIO_XML_SIZE \<Longrightarrow>
      body (length x, x) a = Inl (fl, b) \<Longrightarrow>
        prefix x b \<and> prefix b (x @ E a) \<and> length b < IIO_XML_SIZE \<and> (ok a \<longrightarrow> fl = AssertFail)"
      by (rule Cons.prems(2)) simp_all
    have "prefix (x @ E a) b \<and> prefix b ((x @ E a) @ concat (map E xs)) \<and>
          length b < IIO_XML_SIZE \<and> (list_all ok xs \<longrightarrow> fl = AssertFail)"
      by (rule Cons.IH [OF sR sL len rest])
    then have h: "prefix (x @ E a) b" "prefix b (x @ concat (map E (a # xs)))"
        "length b < IIO_XML_SIZE" "list_all ok xs \<longrightarrow> fl = AssertFail"
      by simp_all
    from h(1) have "prefix x b" by (rule append_prefixD)
    with h show ?thesis by simp
  qed
qed

lemma xml_for_each_Inr_iff:
  assumes "\<And>a i x st. a \<in> set xs \<Longrightarrow> i < IIO_XML_SIZE \<Longrightarrow>
      body (i, x) a = Inr st \<longleftrightarrow>
        ok a \<and> i + length (E a) < IIO_XML_SIZE \<and> st = (i + length (E a), x @ E a)"
    and "i < IIO_XML_SIZE"
  shows "xml_for_each body (i, x) xs = Inr st \<longleftrightarrow>
           (xs \<noteq> [] \<and> list_all ok xs) \<and> i + length (concat (map E xs)) < IIO_XML_SIZE \<and>
           st = (i + length (concat (map E xs)), x @ concat (map E xs))"
proof (cases xs)
  case Nil
  then show ?thesis by (simp add: xml_for_each_def)
next
  case (Cons a list)
  then have "xml_for_each body (i, x) xs = xml_for_each_loop body (i, x) xs"
    by (simp add: xml_for_each_def)
  with xml_for_each_loop_Inr_iff [of xs body ok E i x st, OF assms] Cons show ?thesis
    by simp
qed

lemma xml_for_each_Inl:
  assumes stepR: "\<And>a i x st. a \<in> set xs \<Longrightarrow> i < IIO_XML_SIZE \<Longrightarrow>
      body (i, x) a = Inr st \<longleftrightarrow>
        ok a \<and> i + length (E a) < IIO_XML_SIZE \<and> st = (i + length (E a), x @ E a)"
    and stepL: "\<And>a x fl b. a \<in> set xs \<Longrightarrow> length x < IIO_XML_SIZE \<Longrightarrow>
      body (length x, x) a = Inl (fl, b) \<Longrightarrow>
        prefix x b \<and> prefix b (x @ E a) \<and> length b < IIO_XML_SIZE \<and> (ok a \<longrightarrow> fl = AssertFail)"
    and x: "length x < IIO_XML_SIZE"
    and res: "xml_for_each body (length x, x) xs = Inl (fl, b)"
  shows "prefix x b \<and> prefix b (x @ concat (map E xs)) \<and> length b < IIO_XML_SIZE \<and>
         (xs \<noteq> [] \<and> list_all ok xs \<longrightarrow> fl = AssertFail)"
proof (cases xs)
  case Nil
  with res x show ?thesis by (simp add: xml_for_each_def)
next
  case (Cons a list)
  with res have "xml_for_each_loop body (length x, x) xs = Inl (fl, b)"
    by (simp add: xml_for_each_def)
  from xml_for_each_loop_Inl [of xs body ok E x fl b, OF stepR stepL x this]
  show ?thesis by blast
qed

lemma rendersD_Inr:
  "renders f ok E \<Longrightarrow> i < IIO_XML_SIZE \<Longrightarrow>
   f (i, x) = Inr st \<longleftrightarrow> ok \<and> i + length E < IIO_XML_SIZE \<and> st = (i + length E, x @ E)"
  unfolding renders_def by blast

lemma rendersD_Inl:
  "renders f ok E \<Longrightarrow> length x < IIO_XML_SIZE \<Longrightarrow> f (length x, x) = Inl (fl, b) \<Longrightarrow>
   prefix x b \<and> prefix b (x @ E) \<and> length b < IIO_XML_SIZE \<and> (ok \<longrightarrow> fl = AssertFail)"
  unfolding renders_def by blast

lemma renders_strcat: "n = length s \<Longrightarrow> renders (\<lambda>st. xml_strcat st n s) True s"
  unfolding renders_def by (simp add: xml_strcat_Inr_iff xml_strcat_Inl_iff)

lemma renders_guard:
  assumes "c \<Longrightarrow> renders f ok E"
  shows "renders (\<lambda>st. if c then f st else Inl (fl, snd st)) (c \<and> ok) E"
proof (cases c)
  case True
  with assms show ?thesis by (simp add: renders_def)
next
  case False
  then show ?thesis by (simp add: renders_def)
qed

lemma renders_seq:
  assumes f: "renders f ok1 E1" and g: "renders g ok2 E2"
  shows "renders (\<lambda>st. case f st of Inl e \<Rightarrow> Inl e | Inr st \<Rightarrow> g st) (ok1 \<and> ok2) (E1 @ E2)"
  unfolding renders_def
proof (rule conjI; intro allI impI)
  fix i x st assume i: "i < IIO_XML_SIZE"
  show "((case f (i, x) of Inl e \<Rightarrow> Inl e | Inr st \<Rightarrow> g st) = Inr st) =
        ((ok1 \<and> ok2) \<and> i + length (E1 @ E2) < IIO_XML_SIZE \<and> st = (i + length (E1 @ E2), x @ E1 @ E2))"
  proof (cases "f (i, x)")
    case (Inl e)
    then have "\<not> (ok1 \<and> i + length E1 < IIO_XML_SIZE)"
      using rendersD_Inr [OF f i, of x "(i + length E1, x @ E1)"] by auto
    with Inl show ?thesis by auto
  next
    case (Inr st1)
    then have a: "ok1" "i + length E1 < IIO_XML_SIZE" "st1 = (i + length E1, x @ E1)"
      using rendersD_Inr [OF f i, of x st1] by auto
    from rendersD_Inr [OF g a(2), of "x @ E1" st] Inr a show ?thesis
      by (auto simp: add.assoc)
  qed
next
  fix x fl b
  assume x: "length x < IIO_XML_SIZE"
    and res: "(case f (length x, x) of Inl e \<Rightarrow> Inl e | Inr st \<Rightarrow> g st) = Inl (fl, b)"
  show "prefix x b \<and> prefix b (x @ E1 @ E2) \<and> length b < IIO_XML_SIZE \<and>
        (ok1 \<and> ok2 \<longrightarrow> fl = AssertFail)"
  proof (cases "f (length x, x)")
    case (Inl e)
    with res have "f (length x, x) = Inl (fl, b)" by simp
    from rendersD_Inl [OF f x this]
    have h: "prefix x b" "prefix b (x @ E1)" "length b < IIO_XML_SIZE" "ok1 \<longrightarrow> fl = AssertFail"
      by simp_all
    have "prefix (x @ E1) (x @ E1 @ E2)" by simp
    with h(2) have "prefix b (x @ E1 @ E2)" by (rule prefix_order.trans)
    with h show ?thesis by simp
  next
    case (Inr st1)
    then have a: "ok1" "length x + length E1 < IIO_XML_SIZE" "st1 = (length x + length E1, x @ E1)"
      using rendersD_Inr [OF f x, of x st1] by auto
    have len: "length (x @ E1) < IIO_XML_SIZE" using a by simp
    have "g (length (x @ E1), x @ E1) = Inl (fl, b)" using res Inr a by simp
    from rendersD_Inl [OF g len this]
    have h: "prefix (x @ E1) b" "prefix b (x @ E1 @ E2)" "length b < IIO_XML_SIZE"
        "ok2 \<longrightarrow> fl = AssertFail"
      by simp_all
    from h(1) have "prefix x b" by (rule append_prefixD)
    with h show ?thesis by simp
  qed
qed

lemma renders_for_each:
  assumes "\<And>a. a \<in> set xs \<Longrightarrow> renders (\<lambda>st. body st a) (ok a) (E a)"
  shows "renders (\<lambda>st. xml_for_each body st xs) (xs \<noteq> [] \<and> list_all ok xs) (concat (map E xs))"
  unfolding renders_def
proof (rule conjI; intro allI impI)
  fix i x st assume i: "i < IIO_XML_SIZE"
  show "(xml_for_each body (i, x) xs = Inr st) =
        ((xs \<noteq> [] \<and> list_all ok xs) \<and> i + length (concat (map E xs)) < IIO_XML_SIZE \<and>
         st = (i + length (concat (map E xs)), x @ concat (map E xs)))"
    by (rule xml_for_each_Inr_iff [OF _ i]) (rule rendersD_Inr [OF assms])
next
  fix x fl b
  assume x: "length x < IIO_XML_SIZE" and res: "xml_for_each body (length x, x) xs = Inl (fl, b)"
  show "prefix x b \<and> prefix b (x @ concat (map E xs)) \<and> length b < IIO_XML_SIZE \<and>
        (xs \<noteq> [] \<and> list_all ok xs \<longrightarrow> fl = AssertFail)"
  proof (rule xml_for_each_Inl [OF _ _ x res])
    show "body (i, x) a = Inr st \<longleftrightarrow>
        ok a \<and> i + length (E a) < IIO_XML_SIZE \<and> st = (i + length (E a), x @ E a)"
      if "a \<in> set xs" "i < IIO_XML_SIZE" for a i x st
      using that by (rule rendersD_Inr [OF assms])
    show "prefix x b \<and> prefix b (x @ E a) \<and> length b < IIO_XML_SIZE \<and> (ok a \<longrightarrow> fl = AssertFail)"
      if "a \<in> set xs" "length x < IIO_XML_SIZE" "body (length x, x) a = Inl (fl, b)" for a x fl b
      using that by (rule rendersD_Inl [OF assms])
  qed
qed

lemma renders_populate_attribute:
  "renders (\<lambda>st. populate_attribute st a) (attribute_ok a) (attribute_element a)"
proof -
  have "renders (\<lambda>st. if attribute_ok a
          then xml_strcat st (length (attribute_element a)) (attribute_element a)
          else Inl (OverRead, snd st)) (attribute_ok a \<and> True) (attribute_element a)"
    by (intro renders_guard renders_strcat refl)
  moreover have "(\<lambda>st. populate_attribute st a) = (\<lambda>st. if attribute_ok a
          then xml_strcat st (length (attribute_element a)) (attribute_element a)
          else Inl (OverRead, snd st))"
    by (simp add: populate_attribute_def attribute_ok_def attribute_element_def c_str_def)
  ultimately show ?thesis by simp
qed

lemma renders_populate_attributes:
  "renders (\<lambda>st. populate_attributes st attrs level)
     (attrs \<noteq> [] \<and> list_all attribute_ok attrs) (concat (map attribute_element attrs))"
  unfolding populate_attributes_def
  by (rule renders_for_each) (rule renders_populate_attribute)

lemma renders_generate_xml_channel:
  "renders (\<lambda>st. generate_xml_channel st c) (channel_ok c) (channel_element c)"
proof -
  let ?open = \<open>''<channel id="'' @ chn_id c @ ''" type="'' @ chn_type c @ ''">''\<close>
  let ?f = "\<lambda>st. if length (chn_id c) < CHN_ID_STR_MAX_SIZE
      then (if length (chn_type c) < TYPE_STR_MAX_SIZE
            then (case xml_strcat st (length ?open) ?open of
                    Inl e \<Rightarrow> Inl e
                  | Inr st \<Rightarrow>
                      (case populate_attributes st (chn_attrs c) 3 of
                         Inl e \<Rightarrow> Inl e
                       | Inr st \<Rightarrow> xml_strcat st (length ''</channel>'') ''</channel>''))
            else Inl (OverRead, snd st))
      else Inl (OverRead, snd st)"
  have "renders ?f
     (length (chn_id c) < CHN_ID_STR_MAX_SIZE \<and> length (chn_type c) < TYPE_STR_MAX_SIZE \<and>
      True \<and> (chn_attrs c \<noteq> [] \<and> list_all attribute_ok (chn_attrs c)) \<and> True)
     (?open @ concat (map attribute_element (chn_attrs c)) @ ''</channel>'')"
    by (intro renders_guard renders_seq renders_strcat renders_populate_attributes refl)
  moreover have "(\<lambda>st. generate_xml_channel st c) = ?f"
    by (simp add: generate_xml_channel_def c_str_def)
  ultimately show ?thesis
    by (simp add: channel_ok_def channel_element_def)
qed

lemma renders_generate_xml_device:
  "renders (\<lambda>st. generate_xml_device st d) (device_ok d) (device_element d)"
proof -
  let ?id = "sprintf_d (sint (dev_id d))"
  let ?open = \<open>''<device id="'' @ ?id @ ''" name="'' @ dev_name d @ ''">''\<close>
  let ?f = "\<lambda>st. if length ?id < 4
      then (if length (dev_name d) < DEV_NAME_STR_MAX_SIZE
            then (case xml_strcat st (length ?open) ?open of
                    Inl e \<Rightarrow> Inl e
                  | Inr st \<Rightarrow>
                      (case xml_for_each generate_xml_channel st (dev_channels d) of
                         Inl e \<Rightarrow> Inl e
                       | Inr st \<Rightarrow>
                           (case populate_attributes st (dev_attrs d) 2 of
                              Inl e \<Rightarrow> Inl e
                            | Inr st \<Rightarrow> xml_strcat st (length ''</device>'') ''</device>'')))
            else Inl (OverRead, snd st))
      else Inl (BufferOverflow, snd st)"
  have "renders ?f
     (length ?id < 4 \<and> length (dev_name d) < DEV_NAME_STR_MAX_SIZE \<and>
      True \<and> (dev_channels d \<noteq> [] \<and> list_all channel_ok (dev_channels d)) \<and>
      (dev_attrs d \<noteq> [] \<and> list_all attribute_ok (dev_attrs d)) \<and> True)
     (?open @ concat (map channel_element (dev_channels d)) @
      concat (map attribute_element (dev_attrs d)) @ ''</device>'')"
    by (intro renders_guard renders_seq renders_strcat renders_populate_attributes
        renders_for_each renders_generate_xml_channel refl)
  moreover have "generate_xml_device st d = ?f st" for st
    by (cases "length ?id < 4"; cases "length (dev_name d) < DEV_NAME_STR_MAX_SIZE")
       (simp_all add: generate_xml_device_def c_str_def Let_def)
  then have "(\<lambda>st. generate_xml_device st d) = ?f"
    by (intro ext)
  ultimately show ?thesis
    by (simp add: device_ok_def device_element_def)
qed

lemma renders_generate_xml_body:
  "renders (generate_xml_body c) (context_ok c) (context_element c)"
proof -
  let ?name = \<open>''<context name="'' @ ctx_name c @ ''" ''\<close>
  let ?desc = \<open>''description="'' @ ctx_description c @ ''">''\<close>
  have "renders (generate_xml_body c)
     (length (ctx_name c) < CONTEXT_NAME_MAX_SIZE \<and> True \<and>
      length (ctx_description c) < CONTEXT_DESC_MAX_SIZE \<and> True \<and>
      (ctx_devices c \<noteq> [] \<and> list_all device_ok (ctx_devices c)) \<and> True)
     (?name @ ?desc @ concat (map device_element (ctx_devices c)) @ ''</context>'')"
    unfolding generate_xml_body_def
    by (intro renders_guard renders_seq renders_strcat renders_for_each
        renders_generate_xml_device refl)
  then show ?thesis
    by (simp add: context_ok_def context_element_def)
qed

lemma generate_xml_eq:
  "generate_xml c =
     (case generate_xml_body c (length dtd, dtd) of
        Inl e \<Rightarrow> Inl e
      | Inr st \<Rightarrow> Inr (c\<lparr>ctx_xml := snd st\<rparr>))"
proof (cases "length (ctx_name c) < CONTEXT_NAME_MAX_SIZE")
  case False
  then show ?thesis
    by (simp add: generate_xml_def generate_xml_body_def c_str_def length_dtd IIO_XML_SIZE_def)
next
  case True
  then show ?thesis
    by (cases "length (ctx_description c) < CONTEXT_DESC_MAX_SIZE")
       (simp_all add: generate_xml_def generate_xml_body_def c_str_def length_dtd IIO_XML_SIZE_def
          Let_def split: sum.splits)
qed

lemma generate_xml_body_xml: "generate_xml_body (c\<lparr>ctx_xml := b\<rparr>) = generate_xml_body c"
  by (simp add: generate_xml_body_def fun_eq_iff cong: if_cong sum.case_cong)

text \<open>
  The renderer returns exactly on the registries it can walk whose descriptor fits, and
  then the buffer holds the descriptor; when it does not return, the buffer holds the
  preamble and a part of the descriptor, within the capacity.
\<close>

lemma generate_xml_Inr_iff:
  "generate_xml c = Inr c' \<longleftrightarrow> renderable c \<and> c' = c\<lparr>ctx_xml := descriptor c\<rparr>"
proof (cases "generate_xml_body c (length dtd, dtd)")
  case (Inl e)
  then have "\<not> (context_ok c \<and> length dtd + length (context_element c) < IIO_XML_SIZE)"
    using rendersD_Inr [OF renders_generate_xml_body length_dtd_less, of c dtd
        "(length dtd + length (context_element c), dtd @ context_element c)"]
    by auto
  with Inl show ?thesis
    by (auto simp: generate_xml_eq renderable_def descriptor_def)
next
  case (Inr st)
  then have "context_ok c" "length dtd + length (context_element c) < IIO_XML_SIZE"
      "st = (length dtd + length (context_element c), dtd @ context_element c)"
    using rendersD_Inr [OF renders_generate_xml_body length_dtd_less, of c dtd st] by auto
  with Inr show ?thesis
    by (auto simp: generate_xml_eq renderable_def descriptor_def)
qed

lemma generate_xml_Inl:
  assumes "generate_xml c = Inl (fl, b)"
  shows "prefix dtd b \<and> prefix b (descriptor c) \<and> length b < IIO_XML_SIZE \<and>
         (context_ok c \<longrightarrow> fl = AssertFail)"
proof -
  from assms have "generate_xml_body c (length dtd, dtd) = Inl (fl, b)"
    by (simp add: generate_xml_eq split: sum.splits)
  from rendersD_Inl [OF renders_generate_xml_body length_dtd_less this]
  show ?thesis by (simp add: descriptor_def)
qed

lemma iio_init_context_ok:
  assumes "iio_init c0 nm ds devs wcb rcb = Inr c"
  shows "context_ok c \<and> ctx_devices c = devs"
proof -
  from assms have "generate_xml
             (c0\<lparr>ctx_name := strncpy nm CONTEXT_NAME_MAX_SIZE,
                 ctx_description := strncpy ds CONTEXT_DESC_MAX_SIZE,
                 ctx_devices := devs\<rparr>) = Inr c"
    by (simp add: iio_init_def split: if_splits)
  then show ?thesis
    by (auto simp: generate_xml_Inr_iff renderable_def context_ok_def)
qed

section \<open>Lemmas about the dispatcher\<close>

lemma for_each_loop_find:
  assumes "\<And>x. x \<in> set list \<Longrightarrow> body x = (if P x then Some (g x) else None)"
  shows "for_each_loop list body = map_option g (find P list)"
  using assms by (induction list) auto

lemma for_each_find:
  assumes "list \<noteq> []"
    and "\<And>x. x \<in> set list \<Longrightarrow> body x = (if P x then Some (g x) else None)"
  shows "for_each list body after = (case find P list of None \<Rightarrow> after | Some x \<Rightarrow> g x)"
proof -
  from assms(1) obtain x xs where "list = x # xs" by (cases list) auto
  then have "for_each list body after =
      (case for_each_loop list body of Some r \<Rightarrow> r | None \<Rightarrow> after)"
    by (simp add: for_each_def)
  also have "for_each_loop list body = map_option g (find P list)"
    by (rule for_each_loop_find) (rule assms(2))
  finally show ?thesis by (simp split: option.splits)
qed

lemma device_matches_atoi:
  "atoi device = Some n \<Longrightarrow> device_matches device dev = Inr (dev_id dev = word_of_int n)"
  by (auto simp: device_matches_def)

lemma device_matches_cong:
  "atoi device = atoi device' \<Longrightarrow> device_matches device = device_matches device'"
  by (simp add: device_matches_def fun_eq_iff)

lemma find_Some_set: "find P xs = Some x \<Longrightarrow> x \<in> set xs \<and> P x"
  by (induction xs) (auto split: if_splits)

lemma strcmp_zero_attr:
  "attribute_ok a \<Longrightarrow>
   strcmp_zero (c_str ATTR_NAME_MAX_SIZE (attr_name a)) (Some s) = Inr (attr_name a = s)"
  by (simp add: strcmp_zero_def c_str_def attribute_ok_def)

lemma strcmp_zero_chn:
  "channel_ok c \<Longrightarrow>
   strcmp_zero (c_str CHN_ID_STR_MAX_SIZE (chn_id c)) (Some s) = Inr (chn_id c = s)"
  by (simp add: strcmp_zero_def c_str_def channel_ok_def)

lemma for_each_attribute_find:
  assumes "attrs \<noteq> []" "list_all attribute_ok attrs"
  shows "for_each attrs
           (\<lambda>attribute.
              case strcmp_zero (c_str ATTR_NAME_MAX_SIZE (attr_name attribute)) (Some attr) of
                Inl f \<Rightarrow> Some (Inl f)
              | Inr eq \<Rightarrow> if eq then Some r else None)
           after =
         (case find_attribute attrs attr of None \<Rightarrow> after | Some a \<Rightarrow> r)"
  unfolding find_attribute_def
proof (rule for_each_find [OF assms(1)])
  fix x assume "x \<in> set attrs"
  with assms(2) have "attribute_ok x" by (simp add: list_all_iff)
  then show "(case strcmp_zero (c_str ATTR_NAME_MAX_SIZE (attr_name x)) (Some attr) of
                Inl f \<Rightarrow> Some (Inl f)
              | Inr eq \<Rightarrow> if eq then Some r else None) =
             (if attr_name x = attr then Some r else None)"
    by (simp add: strcmp_zero_attr)
qed

lemma for_each_channel_find:
  assumes "chans \<noteq> []" "list_all channel_ok chans"
  shows "for_each chans
           (\<lambda>chn.
              case strcmp_zero (c_str CHN_ID_STR_MAX_SIZE (chn_id chn)) (Some channel) of
                Inl f \<Rightarrow> Some (Inl f)
              | Inr eq \<Rightarrow> if eq then Some (g chn) else None)
           after =
         (case find_channel chans channel of None \<Rightarrow> after | Some c \<Rightarrow> g c)"
  unfolding find_channel_def
proof (rule for_each_find [OF assms(1)])
  fix x assume "x \<in> set chans"
  with assms(2) have "channel_ok x" by (simp add: list_all_iff)
  then show "(case strcmp_zero (c_str CHN_ID_STR_MAX_SIZE (chn_id x)) (Some channel) of
                Inl f \<Rightarrow> Some (Inl f)
              | Inr eq \<Rightarrow> if eq then Some (g x) else None) =
             (if chn_id x = channel then Some (g x) else None)"
    by (simp add: strcmp_zero_chn)
qed

lemma for_each_device_find:
  assumes "ctx_devices c \<noteq> []" "atoi device = Some n"
  shows "for_each (ctx_devices c)
           (\<lambda>dev.
              case device_matches device dev of
                Inl f \<Rightarrow> Some (Inl f)
              | Inr m \<Rightarrow> if m then Some (g dev) else None)
           after =
         (case find_device c (word_of_int n) of None \<Rightarrow> after | Some dev \<Rightarrow> g dev)"
  unfolding find_device_def
  by (rule for_each_find [OF assms(1)]) (simp add: device_matches_atoi [OF assms(2)])

lemma find_device_ok:
  "context_ok c \<Longrightarrow> find_device c n = Some dev \<Longrightarrow> device_ok dev"
  by (auto simp: context_ok_def find_device_def list_all_iff dest: find_Some_set)

lemma find_channel_ok:
  "device_ok dev \<Longrightarrow> find_channel (dev_channels dev) s = Some chn \<Longrightarrow> channel_ok chn"
  by (auto simp: device_ok_def find_channel_def list_all_iff dest: find_Some_set)

lemma dev_attrs_scan:
  assumes "device_ok dev"
  shows "for_each (dev_attrs dev)
           (\<lambda>attribute.
              case strcmp_zero (c_str ATTR_NAME_MAX_SIZE (attr_name attribute)) (Some attr) of
                Inl f \<Rightarrow> Some (Inl f)
              | Inr eq \<Rightarrow> if eq then Some r else None)
           after =
         (case find_attribute (dev_attrs dev) attr of None \<Rightarrow> after | Some a \<Rightarrow> r)"
  using assms by (intro for_each_attribute_find) (simp_all add: device_ok_def)

lemma chn_attrs_scan:
  assumes "channel_ok chn"
  shows "for_each (chn_attrs chn)
           (\<lambda>attribute.
              case strcmp_zero (c_str ATTR_NAME_MAX_SIZE (attr_name attribute)) (Some attr) of
                Inl f \<Rightarrow> Some (Inl f)
              | Inr eq \<Rightarrow> if eq then Some r else None)
           after =
         (case find_attribute (chn_attrs chn) attr of None \<Rightarrow> after | Some a \<Rightarrow> r)"
  using assms by (intro for_each_attribute_find) (simp_all add: channel_ok_def)

lemma dev_channels_scan:
  assumes "device_ok dev"
  shows "for_each (dev_channels dev)
           (\<lambda>chn.
              case strcmp_zero (c_str CHN_ID_STR_MAX_SIZE (chn_id chn)) (Some channel) of
                Inl f \<Rightarrow> Some (Inl f)
              | Inr eq \<Rightarrow> if eq then Some (g chn) else None)
           after =
         (case find_channel (dev_channels dev) channel of None \<Rightarrow> after | Some c \<Rightarrow> g c)"
  using assms by (intro for_each_channel_find) (simp_all add: device_ok_def)

text \<open>
  On a registry the renderer has walked, each operation is the scan for the first match
  followed by the test of the accessor slot.
\<close>

lemma read_attr_resolved:
  assumes "context_ok c" "atoi device = Some n"
  shows "read_attr c device attr buf len type w =
     (case find_device c (word_of_int n) of
        None \<Rightarrow> Inr (- ENOENT, w)
      | Some dev \<Rightarrow>
          (case find_attribute (dev_attrs dev) attr of
             None \<Rightarrow> Inr (- ENOENT, w)
           | Some a \<Rightarrow>
               (case acc_read_attr (dev_attr_accessors dev) of
                  None \<Rightarrow> Inr (- ENOSYS, w)
                | Some f \<Rightarrow> Inr (f (dev_data dev) attr buf len type w))))"
proof -
  have ne: "ctx_devices c \<noteq> []" using assms(1) by (simp add: context_ok_def)
  show ?thesis
    unfolding read_attr_def for_each_device_find [OF ne assms(2)]
    by (simp add: dev_attrs_scan find_device_ok [OF assms(1)] split: option.split)
qed

lemma write_attr_resolved:
  assumes "context_ok c" "atoi device = Some n"
  shows "write_attr c device attr buf len type w =
     (case find_device c (word_of_int n) of
        None \<Rightarrow> Inr (- ENOENT, w)
      | Some dev \<Rightarrow>
          (case find_attribute (dev_attrs dev) attr of
             None \<Rightarrow> Inr (- ENOENT, w)
           | Some a \<Rightarrow>
               (case acc_write_attr (dev_attr_accessors dev) of
                  None \<Rightarrow> Inr (- ENOSYS, w)
                | Some f \<Rightarrow> Inr (f (dev_data dev) attr buf len type w))))"
proof -
  have ne: "ctx_devices c \<noteq> []" using assms(1) by (simp add: context_ok_def)
  show ?thesis
    unfolding write_attr_def for_each_device_find [OF ne assms(2)]
    by (simp add: dev_attrs_scan find_device_ok [OF assms(1)] split: option.split)
qed

lemma ch_read_attr_resolved:
  assumes "context_ok c" "atoi device = Some n"
  shows "ch_read_attr c device channel ch_out attr buf len w =
     (case find_device c (word_of_int n) of
        None \<Rightarrow> Inr (- ENOENT, w)
      | Some dev \<Rightarrow>
          (case find_channel (dev_channels dev) channel of
             None \<Rightarrow> Inr (- ENOENT, w)
           | Some chn \<Rightarrow>
               (case find_attribute (chn_attrs chn) attr of
                  None \<Rightarrow> Inr (- ENOENT, w)
                | Some a \<Rightarrow>
                    (case chn_read_attr (dev_chn_accessors dev) of
                       None \<Rightarrow> Inr (- ENOSYS, w)
                     | Some f \<Rightarrow> Inr (f (dev_data dev) channel ch_out attr buf len w)))))"
proof -
  have ne: "ctx_devices c \<noteq> []" using assms(1) by (simp add: context_ok_def)
  note eq = ch_read_attr_def [of c device channel ch_out attr buf len w,
      unfolded for_each_device_find [OF ne assms(2)]]
  show ?thesis
  proof (cases "find_device c (word_of_int n)")
    case None
    then show ?thesis by (simp add: eq)
  next
    case dev: (Some dev)
    then have ok: "device_ok dev" using assms(1) by (simp add: find_device_ok)
    show ?thesis
    proof (cases "find_channel (dev_channels dev) channel")
      case None
      with dev ok show ?thesis by (simp add: eq dev_channels_scan)
    next
      case (Some chn)
      with ok have "channel_ok chn" by (simp add: find_channel_ok)
      with dev ok Some show ?thesis by (simp add: eq dev_channels_scan chn_attrs_scan)
    qed
  qed
qed

lemma ch_write_attr_resolved:
  assumes "context_ok c" "atoi device = Some n"
  shows "ch_write_attr c device channel ch_out attr buf len w =
     (case find_device c (word_of_int n) of
        None \<Rightarrow> Inr (- ENOENT, w)
      | Some dev \<Rightarrow>
          (case find_channel (dev_channels dev) channel of
             None \<Rightarrow> Inr (- ENOENT, w)
           | Some chn \<Rightarrow>
               (case find_attribute (chn_attrs chn) attr of
                  None \<Rightarrow> Inr (- ENOENT, w)
                | Some a \<Rightarrow>
                    (case chn_write_attr (dev_chn_accessors dev) of
                       None \<Rightarrow> Inr (- ENOSYS, w)
                     | Some f \<Rightarrow> Inr (f (dev_data dev) channel ch_out attr buf len w)))))"
proof -
  have ne: "ctx_devices c \<noteq> []" using assms(1) by (simp add: context_ok_def)
  note eq = ch_write_attr_def [of c device channel ch_out attr buf len w,
      unfolded for_each_device_find [OF ne assms(2)]]
  show ?thesis
  proof (cases "find_device c (word_of_int n)")
    case None
    then show ?thesis by (simp add: eq)
  next
    case dev: (Some dev)
    then have ok: "device_ok dev" using assms(1) by (simp add: find_device_ok)
    show ?thesis
    proof (cases "find_channel (dev_channels dev) channel")
      case None
      with dev ok show ?thesis by (simp add: eq dev_channels_scan)
    next
      case (Some chn)
      with ok have "channel_ok chn" by (simp add: find_channel_ok)
      with dev ok Some show ?thesis by (simp add: eq dev_channels_scan chn_attrs_scan)
    qed
  qed
qed

lemma read_data_resolved:
  assumes "ctx_devices c \<noteq> []" "atoi device = Some n"
  shows "read_data c device buf offset bytes_count w =
     (case find_device c (word_of_int n) of
        None \<Rightarrow> Inr (- ENOENT, w)
      | Some dev \<Rightarrow>
          (case chn_read_data (dev_chn_accessors dev) of
             None \<Rightarrow> Inr (- ENOSYS, w)
           | Some f \<Rightarrow> Inr (f (dev_data dev) buf offset bytes_count w)))"
  unfolding read_data_def for_each_device_find [OF assms] by simp

lemma write_data_resolved:
  assumes "ctx_devices c \<noteq> []" "atoi device = Some n"
  shows "write_data c device buf offset bytes_count w =
     (case find_device c (word_of_int n) of
        None \<Rightarrow> Inr (- ENOENT, w)
      | Some dev \<Rightarrow>
          (case chn_write_data (dev_chn_accessors dev) of
             None \<Rightarrow> Inr (- ENOSYS, w)
           | Some f \<Rightarrow> Inr (f (dev_data dev) buf offset bytes_count w)))"
  unfolding write_data_def for_each_device_find [OF assms] by simp

text \<open>The operations read the device identifier through \<^verbatim>\<open>atoi\<close> only.\<close>

lemma dispatch_by_atoi:
  assumes "atoi device = atoi device'"
  shows "read_attr c device attr buf len type w = read_attr c device' attr buf len type w"
    and "write_attr c device attr buf len type w = write_attr c device' attr buf len type w"
    and "ch_read_attr c device channel ch_out attr buf len w =
         ch_read_attr c device' channel ch_out attr buf len w"
    and "ch_write_attr c device channel ch_out attr buf len w =
         ch_write_attr c device' channel ch_out attr buf len w"
    and "read_data c device buf offset bytes_count w = read_data c device' buf offset bytes_count w"
    and "write_data c device buf offset bytes_count w = write_data c device' buf offset bytes_count w"
  by (simp_all add: read_attr_def write_attr_def ch_read_attr_def ch_write_attr_def
      read_data_def write_data_def device_matches_cong [OF assms])

lemma atoi_digits_no_digit: "(case s of [] \<Rightarrow> True | d # _ \<Rightarrow> \<not> isdigit d) \<Longrightarrow> atoi_digits 0 s = 0"
  by (cases s) simp_all

lemma non_numeric_atoi:
  assumes "non_numeric s"
  shows "atoi s = Some 0"
proof (cases "dropWhile isspace s")
  case Nil
  show ?thesis unfolding atoi_def Let_def Nil by simp
next
  case (Cons c cs)
  show ?thesis
  proof (cases "c = CHR ''-'' \<or> c = CHR ''+''")
    case True
    with assms Cons have "case cs of [] \<Rightarrow> True | d # _ \<Rightarrow> \<not> isdigit d"
      by (simp add: non_numeric_def)
    then have "atoi_digits 0 cs = 0" by (rule atoi_digits_no_digit)
    with True show ?thesis unfolding atoi_def Let_def Cons by auto
  next
    case False
    with assms Cons have "\<not> isdigit c" by (simp add: non_numeric_def)
    with False show ?thesis unfolding atoi_def Let_def Cons by simp
  qed
qed

section \<open>Facts about the concrete registries\<close>

lemma sprintf_d_0: "sprintf_d 0 = ''0''"
  by code_simp

lemma sprintf_d_1: "sprintf_d 1 = ''1''"
  by code_simp

lemma atoi_0: "atoi ''0'' = Some 0"
  by code_simp

lemma atoi_1: "atoi ''1'' = Some 1"
  by code_simp

lemma atoi_5: "atoi ''5'' = Some 5"
  by code_simp

lemma non_numeric_abc: "non_numeric ''abc''"
  by code_simp

lemma snprintf_16: "snprintf buf 16 s w = (int (length s), w(buf := take 15 s))"
  by (simp add: snprintf_def)

lemma context_ok_tiny: "context_ok tiny_context"
  by (simp add: context_ok_def tiny_context_def device_ok_def adc_def channel_ok_def
      voltage0_def voltage1_def attribute_ok_def sprintf_d_0
      CONTEXT_NAME_MAX_SIZE_def CONTEXT_DESC_MAX_SIZE_def DEV_NAME_STR_MAX_SIZE_def
      CHN_ID_STR_MAX_SIZE_def TYPE_STR_MAX_SIZE_def ATTR_NAME_MAX_SIZE_def)

lemma context_ok_lab: "context_ok lab_context"
  by code_simp

lemma context_ok_big: "context_ok big_context"
  by code_simp

lemma length_descriptor_tiny: "length (descriptor tiny_context) = 1200"
  by code_simp

lemma length_descriptor_lab: "length (descriptor lab_context) < IIO_XML_SIZE"
  by code_simp

lemma length_big_device: "length (device_element big_device) = 2216"
  by code_simp

lemma length_descriptor_big: "IIO_XML_SIZE \<le> length (descriptor big_context)"
  by (simp add: descriptor_def context_element_def big_context_def tiny_context_def
      length_dtd length_big_device IIO_XML_SIZE_def)

lemma renderable_tiny: "renderable tiny_context"
  by (simp add: renderable_def context_ok_tiny length_descriptor_tiny IIO_XML_SIZE_def)

lemma renderable_lab: "renderable lab_context"
  by (simp add: renderable_def context_ok_lab length_descriptor_lab)

text \<open>\<^verbatim>\<open>iio_init\<close> returns on the example and on the registry of two devices.\<close>

lemma iio_init_tiny:
  "iio_init static_context ''tiny'' ''Tiny IIOD'' [adc] (Some ()) (Some ()) = Inr tiny_served"
proof -
  have "static_context\<lparr>ctx_name := strncpy ''tiny'' CONTEXT_NAME_MAX_SIZE,
           ctx_description := strncpy ''Tiny IIOD'' CONTEXT_DESC_MAX_SIZE,
           ctx_devices := [adc]\<rparr> = tiny_context"
    by (simp add: static_context_def tiny_context_def strncpy_def sizes)
  then show ?thesis
    using renderable_tiny by (simp add: iio_init_def generate_xml_Inr_iff tiny_served_def)
qed

lemma iio_init_lab:
  "iio_init static_context ''lab'' ''Two devices'' [adc, probe] (Some ()) (Some ()) = Inr lab_served"
proof -
  have "static_context\<lparr>ctx_name := strncpy ''lab'' CONTEXT_NAME_MAX_SIZE,
           ctx_description := strncpy ''Two devices'' CONTEXT_DESC_MAX_SIZE,
           ctx_devices := [adc, probe]\<rparr> = lab_context"
    by (simp add: static_context_def lab_context_def strncpy_def sizes)
  then show ?thesis
    using renderable_lab by (simp add: iio_init_def generate_xml_Inr_iff lab_served_def)
qed

text \<open>
  The calls of \<^verbatim>\<open>main\<close> in \<^verbatim>\<open>example2.c\<close>, in its order: they build the device
  \<open>adc\<close> and the context \<open>tiny_served\<close>.
\<close>

lemma example2_attributes:
  "iio_new_static_attribute zero_attribute ''sample_rate'' = \<lparr>attr_name = ''sample_rate''\<rparr> \<and>
   iio_new_static_attribute zero_attribute ''direct_reg_access'' =
     \<lparr>attr_name = ''direct_reg_access''\<rparr> \<and>
   iio_new_static_attribute zero_attribute ''lenght_align_bytes'' =
     \<lparr>attr_name = ''lenght_align_bytes''\<rparr> \<and>
   iio_new_static_attribute zero_attribute ''scale'' = \<lparr>attr_name = ''scale''\<rparr> \<and>
   iio_new_static_attribute zero_attribute ''raw'' = \<lparr>attr_name = ''raw''\<rparr>"
  by (simp add: iio_new_static_attribute_def zero_attribute_def strncpy_def sizes)

lemma example2_device:
  "iio_new_static_device zero_device ''adc'' 0 0
       (Some example_attr_accessors) (Some example_chn_accessors) =
     Inr (adc\<lparr>dev_attrs := [], dev_channels := []\<rparr>) \<and>
   iio_register_attribute True \<lparr>attr_name = ''sample_rate''\<rparr> [] =
     Inr (1, [\<lparr>attr_name = ''sample_rate''\<rparr>]) \<and>
   iio_register_attribute True \<lparr>attr_name = ''direct_reg_access''\<rparr>
       [\<lparr>attr_name = ''sample_rate''\<rparr>] =
     Inr (2, [\<lparr>attr_name = ''sample_rate''\<rparr>, \<lparr>attr_name = ''direct_reg_access''\<rparr>]) \<and>
   iio_register_attribute True \<lparr>attr_name = ''lenght_align_bytes''\<rparr>
       [\<lparr>attr_name = ''sample_rate''\<rparr>, \<lparr>attr_name = ''direct_reg_access''\<rparr>] =
     Inr (3, dev_attrs adc)"
  by (simp add: iio_new_static_device_def zero_device_def adc_def strncpy_def sizes
      iio_register_attribute_def strcmp_zero_c_str)

lemma example2_channels:
  "iio_new_static_channel zero_channel ''voltage0'' ''input'' = voltage0\<lparr>chn_attrs := []\<rparr> \<and>
   iio_new_static_channel zero_channel ''voltage1'' ''input'' = voltage1\<lparr>chn_attrs := []\<rparr> \<and>
   iio_register_attribute True \<lparr>attr_name = ''scale''\<rparr> [] = Inr (1, [\<lparr>attr_name = ''scale''\<rparr>]) \<and>
   iio_register_attribute True \<lparr>attr_name = ''raw''\<rparr> [\<lparr>attr_name = ''scale''\<rparr>] =
     Inr (2, chn_attrs voltage0) \<and>
   chn_attrs voltage1 = chn_attrs voltage0 \<and>
   iio_register_channel True voltage0 [] = Inr (1, [voltage0]) \<and>
   iio_register_channel True voltage1 [voltage0] = Inr (2, dev_channels adc)"
  by (simp add: iio_new_static_channel_def zero_channel_def voltage0_def voltage1_def adc_def
      strncpy_def sizes iio_register_attribute_def iio_register_channel_def strcmp_zero_c_str)

lemma example2_registry:
  "iio_register_device True adc [] = Inr (1, [adc]) \<and>
   iio_init static_context ''tiny'' ''Tiny IIOD'' [adc] (Some ()) (Some ()) = Inr tiny_served"
  by (simp add: iio_register_device_def iio_init_tiny)

lemma find_device_tiny_0: "find_device tiny_served 0 = Some adc"
  by (simp add: find_device_def tiny_served_def tiny_context_def adc_def)

lemma find_device_tiny_5: "find_device tiny_served 5 = None"
  by (simp add: find_device_def tiny_served_def tiny_context_def adc_def)

lemma find_device_lab_1: "find_device lab_served 1 = Some probe"
  by (simp add: find_device_def lab_served_def lab_context_def adc_def probe_def)

lemma read_attr_tiny_0:
  "read_attr tiny_served ''0'' ''sample_rate'' 0 16 IIO_ATTR_TYPE_DEVICE empty_memory =
     Inr (4, empty_memory(0 := ''1000''))"
proof -
  have ok: "context_ok tiny_served"
    using iio_init_tiny by (simp add: iio_init_context_ok)
  show ?thesis
    by (simp add: read_attr_resolved [OF ok atoi_0] find_device_tiny_0)
       (simp add: adc_def find_attribute_def example_attr_accessors_def read_dev_attr_def
          snprintf_16)
qed

lemma read_data_tiny_0:
  "read_data tiny_served ''0'' 0 0 16 empty_memory = Inr (- ENOSYS, empty_memory)"
proof -
  have ne: "ctx_devices tiny_served \<noteq> []"
    by (simp add: tiny_served_def tiny_context_def)
  show ?thesis
    by (simp add: read_data_resolved [OF ne atoi_0] find_device_tiny_0)
       (simp add: adc_def example_chn_accessors_def)
qed

lemma example2_read_scale:
  "ch_read_attr tiny_served ''0'' ''voltage0'' False ''scale'' 0 16 empty_memory =
     Inr (5, empty_memory(0 := ''0.033''))"
proof -
  have ok: "context_ok tiny_served"
    using iio_init_tiny by (simp add: iio_init_context_ok)
  show ?thesis
    by (simp add: ch_read_attr_resolved [OF ok atoi_0] find_device_tiny_0)
       (simp add: adc_def find_channel_def voltage0_def find_attribute_def
          example_chn_accessors_def read_ch_attr_def snprintf_16)
qed

lemma xml_for_each_big:
  "xml_for_each generate_xml_device (854, x) [big_device] =
     Inr (3070, x @ device_element big_device)"
proof -
  have r: "renders (\<lambda>st. xml_for_each generate_xml_device st [big_device])
      ([big_device] \<noteq> [] \<and> list_all device_ok [big_device])
      (concat (map device_element [big_device]))"
    by (rule renders_for_each) (rule renders_generate_xml_device)
  have ok: "device_ok big_device"
    using context_ok_big by (simp add: context_ok_def big_context_def)
  have "xml_for_each generate_xml_device (854, x) [big_device] =
      Inr (854 + length (concat (map device_element [big_device])),
           x @ concat (map device_element [big_device]))"
    using rendersD_Inr [OF r, of 854 x
        "(854 + length (concat (map device_element [big_device])),
          x @ concat (map device_element [big_device]))"] ok
    by (simp add: length_big_device IIO_XML_SIZE_def)
  then show ?thesis by (simp add: length_big_device)
qed

lemma length_big_partial:
  \<open>length (dtd @ ''<context name="tiny" description="Tiny IIOD">'' @ device_element big_device) =
     3070\<close>
  by (simp add: length_dtd length_big_device)

section \<open>The claims\<close>

subsection \<open>C1: registering a device\<close>

text \<open>
  Claim C1 says that \<^verbatim>\<open>iio_register_device\<close> appends a device whose name and
  identifier differ from those of every registered device, and returns its position. The
  code does not: with \<open>adc\<close> (name "adc", identifier 0) registered, registering
  \<open>probe\<close> (name "probe", identifier 1) returns \<open>-EINVAL\<close> and leaves the list as it
  was. The loop tests \<^verbatim>\<open>IIO_ID(dev) == IIO_ID(dev)\<close>, so this happens for every
  registration into a list that is not empty.
\<close>

theorem iio_register_device_second:
  "dev_name probe \<noteq> dev_name adc \<and> dev_id probe \<noteq> dev_id adc \<and>
   iio_register_device True probe [adc] = Inr (- EINVAL, [adc])"
proof -
  have "iio_register_device True probe [adc] = Inr (- EINVAL, [adc])"
    by (rule iio_register_device_nonempty) (simp_all add: adc_def probe_def sizes)
  then show ?thesis by (simp add: adc_def probe_def)
qed

subsection \<open>C2: the direction of a channel\<close>

text \<open>
  Claim C2 says that a channel request with the output flag set, for a channel registered
  as input, fails with \<open>-ENOENT\<close> and runs no accessor. It is false: in the example,
  \<^verbatim>\<open>ch_write_attr\<close> on the input channel \<open>voltage0\<close> with the flag set reaches the test
  of the accessor slot and returns \<open>-ENOSYS\<close>; on the second device,
  \<^verbatim>\<open>ch_read_attr\<close> on an input channel with the flag set runs the accessor, which
  sees the flag and writes into the buffer.
\<close>

theorem ch_attr_output_on_input_channel_counterexample:
  "chn_type voltage0 = ''input'' \<and>
   ch_write_attr tiny_served ''0'' ''voltage0'' True ''scale'' 0 16 empty_memory =
     Inr (- ENOSYS, empty_memory) \<and>
   - ENOSYS \<noteq> - ENOENT \<and>
   ch_read_attr lab_served ''1'' ''voltage0'' True ''raw'' 0 16 empty_memory =
     Inr (3, empty_memory(0 := ''out'')) \<and>
   3 \<noteq> - ENOENT"
proof -
  have ok: "context_ok tiny_served"
    using iio_init_tiny by (simp add: iio_init_context_ok)
  have okl: "context_ok lab_served"
    using iio_init_lab by (simp add: iio_init_context_ok)
  have "ch_write_attr tiny_served ''0'' ''voltage0'' True ''scale'' 0 16 empty_memory =
     Inr (- ENOSYS, empty_memory)"
    by (simp add: ch_write_attr_resolved [OF ok atoi_0] find_device_tiny_0)
       (simp add: adc_def find_channel_def voltage0_def find_attribute_def
          example_chn_accessors_def)
  moreover have "ch_read_attr lab_served ''1'' ''voltage0'' True ''raw'' 0 16 empty_memory =
     Inr (3, empty_memory(0 := ''out''))"
    by (simp add: ch_read_attr_resolved [OF okl atoi_1] find_device_lab_1)
       (simp add: probe_def find_channel_def find_attribute_def probe_ch_attr_def snprintf_16)
  ultimately show ?thesis
    by (simp add: voltage0_def ENOSYS_def ENOENT_def)
qed

text \<open>
  Claim C2 as the code has it: the dispatcher does not consult the direction a channel
  was registered with. On a context that \<^verbatim>\<open>iio_init\<close> returned, when the first
  channel with the requested identifier is an input channel and has the attribute, a
  request with the output flag set returns \<open>-ENOSYS\<close> if the accessor slot is null, and
  otherwise runs the accessor with the flag set and returns its result.
\<close>

theorem ch_attr_output_on_input_channel:
  assumes "iio_init c0 nm ds devs wcb rcb = Inr c"
    and "atoi device = Some n"
    and "find_device c (word_of_int n) = Some dev"
    and "find_channel (dev_channels dev) channel = Some chn"
    and "chn_type chn = ''input''"
    and "find_attribute (chn_attrs chn) attr = Some a"
  shows "ch_read_attr c device channel True attr buf len w =
           (case chn_read_attr (dev_chn_accessors dev) of
              None \<Rightarrow> Inr (- ENOSYS, w)
            | Some f \<Rightarrow> Inr (f (dev_data dev) channel True attr buf len w)) \<and>
         ch_write_attr c device channel True attr buf len w =
           (case chn_write_attr (dev_chn_accessors dev) of
              None \<Rightarrow> Inr (- ENOSYS, w)
            | Some f \<Rightarrow> Inr (f (dev_data dev) channel True attr buf len w))"
proof -
  from assms(1) have ok: "context_ok c" by (simp add: iio_init_context_ok)
  show ?thesis
    using assms(3,4,6)
    by (simp add: ch_read_attr_resolved [OF ok assms(2)] ch_write_attr_resolved [OF ok assms(2)])
qed

text \<open>The example at the theorem: the channel \<open>voltage0\<close> of \<open>adc\<close>.\<close>

theorem ch_attr_output_on_input_channel_witness:
  "iio_init static_context ''tiny'' ''Tiny IIOD'' [adc] (Some ()) (Some ()) = Inr tiny_served \<and>
   atoi ''0'' = Some 0 \<and> find_device tiny_served (word_of_int 0) = Some adc \<and>
   find_channel (dev_channels adc) ''voltage0'' = Some voltage0 \<and>
   chn_type voltage0 = ''input'' \<and>
   find_attribute (chn_attrs voltage0) ''scale'' = Some \<lparr>attr_name = ''scale''\<rparr> \<and>
   ch_read_attr tiny_served ''0'' ''voltage0'' True ''scale'' 0 16 empty_memory =
     Inr (read_ch_attr 0 ''voltage0'' True ''scale'' 0 16 empty_memory) \<and>
   ch_write_attr tiny_served ''0'' ''voltage0'' True ''scale'' 0 16 empty_memory =
     Inr (- ENOSYS, empty_memory)"
proof -
  have d: "find_device tiny_served (word_of_int 0) = Some adc"
    by (simp add: find_device_tiny_0)
  have ch: "find_channel (dev_channels adc) ''voltage0'' = Some voltage0"
    by (simp add: find_channel_def adc_def voltage0_def)
  have ty: "chn_type voltage0 = ''input''"
    by (simp add: voltage0_def)
  have a: "find_attribute (chn_attrs voltage0) ''scale'' = Some \<lparr>attr_name = ''scale''\<rparr>"
    by (simp add: find_attribute_def voltage0_def)
  from ch_attr_output_on_input_channel [OF iio_init_tiny atoi_0 d ch ty a, of 0 16 empty_memory]
    iio_init_tiny atoi_0 d ch ty a
  show ?thesis
    by (simp add: adc_def example_chn_accessors_def)
qed

subsection \<open>C3: a descriptor that does not fit\<close>

text \<open>
  Claim C3 says that rendering a registry whose descriptor exceeds the buffer returns an
  overflow error and leaves the buffer as it was, or empty. It is false: on
  \<open>big_context\<close>, whose descriptor has 3080 characters, the renderer stops at the
  assertion before the closing tag of the context; the buffer was empty before and then
  holds the 3070 characters generated so far.
\<close>

theorem generate_xml_overflow_counterexample:
  \<open>IIO_XML_SIZE \<le> length (descriptor big_context) \<and>
   ctx_xml big_context = [] \<and>
   generate_xml big_context =
     Inl (AssertFail,
          dtd @ ''<context name="tiny" description="Tiny IIOD">'' @ device_element big_device) \<and>
   length (dtd @ ''<context name="tiny" description="Tiny IIOD">'' @ device_element big_device) =
     3070\<close>
proof -
  have \<open>generate_xml_body big_context (length dtd, dtd) =
     Inl (AssertFail,
          dtd @ ''<context name="tiny" description="Tiny IIOD">'' @ device_element big_device)\<close>
    by (simp add: generate_xml_body_def big_context_def tiny_context_def sizes length_dtd
        xml_strcat_def IIO_XML_SIZE_def xml_for_each_big)
  then show ?thesis
    using length_descriptor_big length_big_partial
    by (simp add: generate_xml_eq big_context_def tiny_context_def)
qed

text \<open>
  Claim C3 as the code has it: for a registry that the renderer can walk and whose
  descriptor has \<open>IIO_XML_SIZE\<close> characters or more, \<^verbatim>\<open>generate_xml\<close> does not
  return: it stops at a failed assertion. Nothing has then been written past the
  capacity (the buffer holds fewer than \<open>IIO_XML_SIZE\<close> characters), and the buffer
  holds the preamble followed by the part of the descriptor generated so far, whatever
  it held before.
\<close>

theorem generate_xml_overflow:
  assumes "context_ok c" and "IIO_XML_SIZE \<le> length (descriptor c)"
  shows "\<exists>b. generate_xml c = Inl (AssertFail, b) \<and> prefix dtd b \<and>
             strict_prefix b (descriptor c) \<and> length b < IIO_XML_SIZE"
proof (cases "generate_xml c")
  case (Inr c')
  with assms(2) show ?thesis by (simp add: generate_xml_Inr_iff renderable_def)
next
  case (Inl e)
  obtain fl b where e: "e = (fl, b)" by (cases e)
  from generate_xml_Inl [of c fl b] Inl e assms(1)
  have h: "prefix dtd b" "prefix b (descriptor c)" "length b < IIO_XML_SIZE" "fl = AssertFail"
    by simp_all
  from h(3) assms(2) have "b \<noteq> descriptor c" by auto
  with h(2) have "strict_prefix b (descriptor c)" by (simp add: strict_prefix_def)
  with Inl e h show ?thesis by simp
qed

text \<open>The registry \<open>big_context\<close> at the theorem.\<close>

theorem generate_xml_overflow_witness:
  "context_ok big_context \<and> IIO_XML_SIZE \<le> length (descriptor big_context) \<and>
   (\<exists>b. generate_xml big_context = Inl (AssertFail, b) \<and> prefix dtd b \<and>
        strict_prefix b (descriptor big_context) \<and> length b < IIO_XML_SIZE)"
  using generate_xml_overflow [OF context_ok_big length_descriptor_big]
    context_ok_big length_descriptor_big
  by simp

subsection \<open>C4: registering attributes\<close>

text \<open>
  Claim C4: when attributes with pairwise distinct names are registered one after the
  other into an empty collection, the call for the attribute at index \<open>k\<close> finds the
  \<open>k\<close> attributes before it, returns \<open>k + 1\<close> and leaves \<open>k + 1\<close> attributes, the
  new one last; registering an attribute whose name is already in a collection returns
  \<open>-EINVAL\<close> and leaves the collection as it was. The names are strings (their arrays
  hold a terminator) and \<^verbatim>\<open>calloc\<close> succeeds.
\<close>

theorem iio_register_attribute_sequence:
  assumes "distinct (map attr_name attrs)"
    and "list_all attribute_ok attrs"
  shows "(\<forall>k<length attrs.
            iio_register_attribute True (attrs ! k) (take k attrs) =
              Inr (int k + 1, take (Suc k) attrs) \<and>
            length (take (Suc k) attrs) = length (take k attrs) + 1) \<and>
         (\<forall>attr calloc_ok.
            attribute_ok attr \<and> attr_name attr \<in> attr_name ` set attrs \<longrightarrow>
            iio_register_attribute calloc_ok attr attrs = Inr (- EINVAL, attrs))"
proof (intro conjI allI impI)
  have all: "\<forall>a\<in>set attrs. length (attr_name a) < ATTR_NAME_MAX_SIZE"
    using assms(2) by (simp add: list_all_iff attribute_ok_def)
  fix k assume k: "k < length attrs"
  have pre: "\<forall>a\<in>set (take k attrs). length (attr_name a) < ATTR_NAME_MAX_SIZE"
    using all by (meson in_set_takeD)
  have len: "length (attr_name (attrs ! k)) < ATTR_NAME_MAX_SIZE"
    using all k by simp
  have "attrs = take k attrs @ attrs ! k # drop (Suc k) attrs"
    using k by (simp add: id_take_nth_drop)
  then have "distinct (map attr_name (take k attrs @ attrs ! k # drop (Suc k) attrs))"
    using assms(1) by simp
  then have fresh: "attr_name (attrs ! k) \<notin> attr_name ` set (take k attrs)"
    by auto
  show "iio_register_attribute True (attrs ! k) (take k attrs) =
          Inr (int k + 1, take (Suc k) attrs)"
    using iio_register_attribute_fresh [OF pre len fresh] k
    by (simp add: take_Suc_conv_app_nth)
  show "length (take (Suc k) attrs) = length (take k attrs) + 1"
    using k by simp
next
  have all: "\<forall>a\<in>set attrs. length (attr_name a) < ATTR_NAME_MAX_SIZE"
    using assms(2) by (simp add: list_all_iff attribute_ok_def)
  fix attr :: attribute and calloc_ok
  assume "attribute_ok attr \<and> attr_name attr \<in> attr_name ` set attrs"
  then show "iio_register_attribute calloc_ok attr attrs = Inr (- EINVAL, attrs)"
    using iio_register_attribute_dup [OF all] by (simp add: attribute_ok_def)
qed

text \<open>The three device attributes of the example, and one of them again.\<close>

theorem iio_register_attribute_sequence_witness:
  "distinct (map attr_name (dev_attrs adc)) \<and> list_all attribute_ok (dev_attrs adc) \<and>
   iio_register_attribute True \<lparr>attr_name = ''sample_rate''\<rparr> [] =
     Inr (1, [\<lparr>attr_name = ''sample_rate''\<rparr>]) \<and>
   iio_register_attribute True \<lparr>attr_name = ''direct_reg_access''\<rparr>
       [\<lparr>attr_name = ''sample_rate''\<rparr>] =
     Inr (2, [\<lparr>attr_name = ''sample_rate''\<rparr>, \<lparr>attr_name = ''direct_reg_access''\<rparr>]) \<and>
   iio_register_attribute True \<lparr>attr_name = ''lenght_align_bytes''\<rparr>
       [\<lparr>attr_name = ''sample_rate''\<rparr>, \<lparr>attr_name = ''direct_reg_access''\<rparr>] =
     Inr (3, dev_attrs adc) \<and>
   iio_register_attribute True \<lparr>attr_name = ''sample_rate''\<rparr> (dev_attrs adc) =
     Inr (- EINVAL, dev_attrs adc)"
proof -
  have d: "distinct (map attr_name (dev_attrs adc))"
    by (simp add: adc_def)
  have t: "list_all attribute_ok (dev_attrs adc)"
    by (simp add: adc_def attribute_ok_def sizes)
  note seq = iio_register_attribute_sequence [OF d t]
  from seq have k: "\<And>k. k < length (dev_attrs adc) \<Longrightarrow>
       iio_register_attribute True (dev_attrs adc ! k) (take k (dev_attrs adc)) =
         Inr (int k + 1, take (Suc k) (dev_attrs adc))"
    by blast
  from seq have dup: "\<And>attr calloc_ok. attribute_ok attr \<Longrightarrow>
       attr_name attr \<in> attr_name ` set (dev_attrs adc) \<Longrightarrow>
       iio_register_attribute calloc_ok attr (dev_attrs adc) = Inr (- EINVAL, dev_attrs adc)"
    by blast
  from k [of 0] k [of 1] k [of 2] dup [of "\<lparr>attr_name = ''sample_rate''\<rparr>" True] d t
  show ?thesis
    by (simp add: adc_def attribute_ok_def sizes)
qed

subsection \<open>C5: a device or an attribute that is not registered\<close>

text \<open>
  Claim C5: on a context that \<^verbatim>\<open>iio_init\<close> returned, \<^verbatim>\<open>read_attr\<close> with a device
  identifier that no registered device has returns \<open>-ENOENT\<close>, and with the identifier
  of a registered device and a name that none of its attributes has it returns
  \<open>-ENOENT\<close> too (the code has one error number for both). No accessor runs: the
  world \<open>w\<close> is returned as it was, whatever the accessors of the registry are.
\<close>

theorem read_attr_not_found:
  assumes "iio_init c0 nm ds devs wcb rcb = Inr c"
    and "atoi device = Some n"
  shows "(find_device c (word_of_int n) = None \<longrightarrow>
            read_attr c device attr buf len type w = Inr (- ENOENT, w)) \<and>
         (\<forall>dev. find_device c (word_of_int n) = Some dev \<and>
                find_attribute (dev_attrs dev) attr = None \<longrightarrow>
            read_attr c device attr buf len type w = Inr (- ENOENT, w))"
proof -
  from assms(1) have "context_ok c" by (simp add: iio_init_context_ok)
  then show ?thesis
    by (simp add: read_attr_resolved [OF _ assms(2)])
qed

text \<open>The example: device 5 is not registered; device 0 has no attribute "gain".\<close>

theorem read_attr_not_found_witness:
  "iio_init static_context ''tiny'' ''Tiny IIOD'' [adc] (Some ()) (Some ()) = Inr tiny_served \<and>
   atoi ''5'' = Some 5 \<and> find_device tiny_served 5 = None \<and>
   read_attr tiny_served ''5'' ''sample_rate'' 0 16 IIO_ATTR_TYPE_DEVICE empty_memory =
     Inr (- ENOENT, empty_memory) \<and>
   atoi ''0'' = Some 0 \<and> find_device tiny_served 0 = Some adc \<and>
   find_attribute (dev_attrs adc) ''gain'' = None \<and>
   read_attr tiny_served ''0'' ''gain'' 0 16 IIO_ATTR_TYPE_DEVICE empty_memory =
     Inr (- ENOENT, empty_memory)"
proof -
  have a: "find_attribute (dev_attrs adc) ''gain'' = None"
    by (simp add: find_attribute_def adc_def)
  from read_attr_not_found [OF iio_init_tiny atoi_5, of "''sample_rate''" 0 16
      IIO_ATTR_TYPE_DEVICE empty_memory]
    read_attr_not_found [OF iio_init_tiny atoi_0, of "''gain''" 0 16
      IIO_ATTR_TYPE_DEVICE empty_memory]
  show ?thesis
    using iio_init_tiny atoi_5 atoi_0 find_device_tiny_0 find_device_tiny_5 a by simp
qed

subsection \<open>C6: a device identifier that is not a number\<close>

text \<open>
  Claim C6 says that every operation answers \<open>-ENOENT\<close> to an identifier that is not
  a number. It is false: \<^verbatim>\<open>atoi\<close> reads "abc" as 0, so in the example
  \<^verbatim>\<open>read_attr\<close> with "abc" runs the accessor of device 0, and \<^verbatim>\<open>read_data\<close> with
  "abc" reaches the test of device 0's accessor slot.
\<close>

theorem non_numeric_device_counterexample:
  "non_numeric ''abc'' \<and>
   read_attr tiny_served ''abc'' ''sample_rate'' 0 16 IIO_ATTR_TYPE_DEVICE empty_memory =
     Inr (4, empty_memory(0 := ''1000'')) \<and>
   4 \<noteq> - ENOENT \<and>
   read_data tiny_served ''abc'' 0 0 16 empty_memory = Inr (- ENOSYS, empty_memory) \<and>
   - ENOSYS \<noteq> - ENOENT"
proof -
  have eq: "atoi ''abc'' = atoi ''0''"
    by (simp add: non_numeric_atoi non_numeric_abc atoi_0)
  show ?thesis
    by (simp add: dispatch_by_atoi [OF eq] read_attr_tiny_0 read_data_tiny_0 non_numeric_abc
        ENOENT_def ENOSYS_def)
qed

text \<open>
  Claim C6 as the code has it: an identifier that does not start with a number is read
  as 0 by \<^verbatim>\<open>atoi\<close>, and each of the six operations then does exactly what it does
  for the identifier "0": it resolves the request against the device registered with
  identifier 0, if there is one.
\<close>

theorem non_numeric_device_is_device_0:
  assumes "non_numeric device"
  shows "atoi device = Some 0 \<and>
         read_attr c device attr buf len type w = read_attr c ''0'' attr buf len type w \<and>
         write_attr c device attr buf len type w = write_attr c ''0'' attr buf len type w \<and>
         ch_read_attr c device channel ch_out attr buf len w =
           ch_read_attr c ''0'' channel ch_out attr buf len w \<and>
         ch_write_attr c device channel ch_out attr buf len w =
           ch_write_attr c ''0'' channel ch_out attr buf len w \<and>
         read_data c device buf offset bytes_count w = read_data c ''0'' buf offset bytes_count w \<and>
         write_data c device buf offset bytes_count w = write_data c ''0'' buf offset bytes_count w"
proof -
  from assms have eq: "atoi device = atoi ''0''"
    by (simp add: non_numeric_atoi atoi_0)
  show ?thesis
    by (simp add: dispatch_by_atoi [OF eq] non_numeric_atoi [OF assms])
qed

text \<open>The example at the theorem, with the identifier "abc".\<close>

theorem non_numeric_device_is_device_0_witness:
  "non_numeric ''abc'' \<and> atoi ''abc'' = Some 0 \<and>
   read_attr tiny_served ''abc'' ''sample_rate'' 0 16 IIO_ATTR_TYPE_DEVICE empty_memory =
     read_attr tiny_served ''0'' ''sample_rate'' 0 16 IIO_ATTR_TYPE_DEVICE empty_memory \<and>
   read_attr tiny_served ''0'' ''sample_rate'' 0 16 IIO_ATTR_TYPE_DEVICE empty_memory =
     Inr (4, empty_memory(0 := ''1000'')) \<and>
   read_data tiny_served ''abc'' 0 0 16 empty_memory =
     read_data tiny_served ''0'' 0 0 16 empty_memory \<and>
   read_data tiny_served ''0'' 0 0 16 empty_memory = Inr (- ENOSYS, empty_memory)"
  using non_numeric_device_is_device_0 [OF non_numeric_abc, of tiny_served]
    non_numeric_abc read_attr_tiny_0 read_data_tiny_0
  by simp

subsection \<open>C7: the accessor slot\<close>

text \<open>
  Claim C7: on a context that \<^verbatim>\<open>iio_init\<close> returned, once the device (and for the
  attribute operations the attribute, for the channel operations the channel and its
  attribute) is resolved, each of the six operations returns \<open>-ENOSYS\<close> and leaves the
  world as it was when the accessor slot is null, and otherwise returns what the accessor
  returns, called with the \<open>data\<close> handle of the device and the arguments of the
  request.
\<close>

theorem dispatch_accessor:
  assumes "iio_init c0 nm ds devs wcb rcb = Inr c"
    and "atoi device = Some n"
    and "find_device c (word_of_int n) = Some dev"
  shows "(find_attribute (dev_attrs dev) attr = Some a \<longrightarrow>
            read_attr c device attr buf len type w =
              (case acc_read_attr (dev_attr_accessors dev) of
                 None \<Rightarrow> Inr (- ENOSYS, w)
               | Some f \<Rightarrow> Inr (f (dev_data dev) attr buf len type w))) \<and>
         (find_attribute (dev_attrs dev) attr = Some a \<longrightarrow>
            write_attr c device attr buf len type w =
              (case acc_write_attr (dev_attr_accessors dev) of
                 None \<Rightarrow> Inr (- ENOSYS, w)
               | Some f \<Rightarrow> Inr (f (dev_data dev) attr buf len type w))) \<and>
         (find_channel (dev_channels dev) channel = Some chn \<and>
          find_attribute (chn_attrs chn) attr = Some a \<longrightarrow>
            ch_read_attr c device channel ch_out attr buf len w =
              (case chn_read_attr (dev_chn_accessors dev) of
                 None \<Rightarrow> Inr (- ENOSYS, w)
               | Some f \<Rightarrow> Inr (f (dev_data dev) channel ch_out attr buf len w))) \<and>
         (find_channel (dev_channels dev) channel = Some chn \<and>
          find_attribute (chn_attrs chn) attr = Some a \<longrightarrow>
            ch_write_attr c device channel ch_out attr buf len w =
              (case chn_write_attr (dev_chn_accessors dev) of
                 None \<Rightarrow> Inr (- ENOSYS, w)
               | Some f \<Rightarrow> Inr (f (dev_data dev) channel ch_out attr buf len w))) \<and>
         read_data c device buf offset bytes_count w =
           (case chn_read_data (dev_chn_accessors dev) of
              None \<Rightarrow> Inr (- ENOSYS, w)
            | Some f \<Rightarrow> Inr (f (dev_data dev) buf offset bytes_count w)) \<and>
         write_data c device buf offset bytes_count w =
           (case chn_write_data (dev_chn_accessors dev) of
              None \<Rightarrow> Inr (- ENOSYS, w)
            | Some f \<Rightarrow> Inr (f (dev_data dev) buf offset bytes_count w))"
proof -
  from assms(1) have ok: "context_ok c" by (simp add: iio_init_context_ok)
  then have ne: "ctx_devices c \<noteq> []" by (simp add: context_ok_def)
  show ?thesis
    using assms(3)
    by (simp add: read_attr_resolved [OF ok assms(2)] write_attr_resolved [OF ok assms(2)]
        ch_read_attr_resolved [OF ok assms(2)] ch_write_attr_resolved [OF ok assms(2)]
        read_data_resolved [OF ne assms(2)] write_data_resolved [OF ne assms(2)])
qed

text \<open>The six operations on the second device of \<open>lab_context\<close>.\<close>

theorem dispatch_accessor_witness:
  "iio_init static_context ''lab'' ''Two devices'' [adc, probe] (Some ()) (Some ()) = Inr lab_served \<and>
   atoi ''1'' = Some 1 \<and> find_device lab_served (word_of_int 1) = Some probe \<and>
   find_attribute (dev_attrs probe) ''mode'' = Some \<lparr>attr_name = ''mode''\<rparr> \<and>
   read_attr lab_served ''1'' ''mode'' 0 16 IIO_ATTR_TYPE_DEVICE empty_memory =
     Inr (4, empty_memory(0 := ''mode'')) \<and>
   write_attr lab_served ''1'' ''mode'' 0 16 IIO_ATTR_TYPE_DEVICE empty_memory =
     Inr (4, empty_memory(0 := ''mode'')) \<and>
   ch_read_attr lab_served ''1'' ''voltage0'' False ''raw'' 0 16 empty_memory =
     Inr (2, empty_memory(0 := ''in'')) \<and>
   ch_write_attr lab_served ''1'' ''voltage0'' False ''raw'' 0 16 empty_memory =
     Inr (2, empty_memory(0 := ''in'')) \<and>
   read_data lab_served ''1'' 0 0 16 empty_memory = Inr (16, empty_memory(0 := ''data'')) \<and>
   write_data lab_served ''1'' 0 0 16 empty_memory = Inr (16, empty_memory(0 := ''data''))"
proof -
  have d: "find_device lab_served (word_of_int 1) = Some probe"
    by (simp add: find_device_lab_1)
  have a: "find_attribute (dev_attrs probe) ''mode'' = Some \<lparr>attr_name = ''mode''\<rparr>"
    by (simp add: find_attribute_def probe_def)
  have ch: "find_channel (dev_channels probe) ''voltage0'' =
      Some \<lparr>chn_id = ''voltage0'', chn_type = ''input'', chn_attrs = [\<lparr>attr_name = ''raw''\<rparr>]\<rparr>"
    by (simp add: find_channel_def probe_def)
  have ca: "find_attribute [\<lparr>attr_name = ''raw''\<rparr>] ''raw'' = Some \<lparr>attr_name = ''raw''\<rparr>"
    by (simp add: find_attribute_def)
  from dispatch_accessor [OF iio_init_lab atoi_1 d, of "''mode''" "\<lparr>attr_name = ''mode''\<rparr>"
      0 16 IIO_ATTR_TYPE_DEVICE empty_memory]
  have dev: "read_attr lab_served ''1'' ''mode'' 0 16 IIO_ATTR_TYPE_DEVICE empty_memory =
       Inr (4, empty_memory(0 := ''mode''))"
    "write_attr lab_served ''1'' ''mode'' 0 16 IIO_ATTR_TYPE_DEVICE empty_memory =
       Inr (4, empty_memory(0 := ''mode''))"
    using a by (simp_all add: probe_def probe_dev_attr_def snprintf_16)
  from dispatch_accessor [OF iio_init_lab atoi_1 d, of "''raw''" "\<lparr>attr_name = ''raw''\<rparr>"
      0 16 _ empty_memory "''voltage0''"
      "\<lparr>chn_id = ''voltage0'', chn_type = ''input'', chn_attrs = [\<lparr>attr_name = ''raw''\<rparr>]\<rparr>"
      False 0 16]
  have chn: "ch_read_attr lab_served ''1'' ''voltage0'' False ''raw'' 0 16 empty_memory =
       Inr (2, empty_memory(0 := ''in''))"
    "ch_write_attr lab_served ''1'' ''voltage0'' False ''raw'' 0 16 empty_memory =
       Inr (2, empty_memory(0 := ''in''))"
    "read_data lab_served ''1'' 0 0 16 empty_memory = Inr (16, empty_memory(0 := ''data''))"
    "write_data lab_served ''1'' 0 0 16 empty_memory = Inr (16, empty_memory(0 := ''data''))"
    using ch ca by (simp_all add: probe_def probe_ch_attr_def probe_data_def snprintf_16)
  from dev chn d a iio_init_lab atoi_1 show ?thesis by simp
qed

subsection \<open>C8: the order of the descriptor\<close>

text \<open>
  Claim C8: \<^verbatim>\<open>generate_xml\<close> returns exactly when the registry can be walked and its
  descriptor fits, and the buffer then holds the descriptor: the preamble, then the
  context element with one element for each device in the order of the registry; each
  device element holds its channels in order, each channel its attributes in order, and
  then the attributes of the device in order. When device \<open>A\<close> stands before device
  \<open>B\<close> in the registry, the element of \<open>A\<close> stands before the element of \<open>B\<close>.
\<close>

theorem generate_xml_descriptor:
  "(generate_xml c = Inr c' \<longleftrightarrow> renderable c \<and> c' = c\<lparr>ctx_xml := descriptor c\<rparr>) \<and>
   descriptor c =
     dtd @ ''<context name=\"'' @ ctx_name c @ ''\" description=\"'' @ ctx_description c @ ''\">'' @
     concat (map device_element (ctx_devices c)) @ ''</context>'' \<and>
   device_element d =
     ''<device id=\"'' @ sprintf_d (sint (dev_id d)) @ ''\" name=\"'' @ dev_name d @ ''\">'' @
     concat (map channel_element (dev_channels d)) @
     concat (map attribute_element (dev_attrs d)) @ ''</device>'' \<and>
   channel_element ch =
     ''<channel id=\"'' @ chn_id ch @ ''\" type=\"'' @ chn_type ch @ ''\">'' @
     concat (map attribute_element (chn_attrs ch)) @ ''</channel>'' \<and>
   attribute_element a = ''<attribute name=\"'' @ attr_name a @ ''\" />'' \<and>
   (ctx_devices c = ds1 @ A # ds2 @ B # ds3 \<longrightarrow>
      descriptor c =
        (dtd @ ''<context name=\"'' @ ctx_name c @ ''\" description=\"'' @ ctx_description c @
           ''\">'' @ concat (map device_element ds1)) @
        device_element A @ concat (map device_element ds2) @ device_element B @
        (concat (map device_element ds3) @ ''</context>''))"
  by (simp add: generate_xml_Inr_iff descriptor_def context_element_def device_element_def
      channel_element_def attribute_element_def)

text \<open>The registry of two devices: \<open>adc\<close> before \<open>probe\<close>.\<close>

theorem generate_xml_descriptor_witness:
  "renderable lab_context \<and>
   generate_xml lab_context = Inr (lab_context\<lparr>ctx_xml := descriptor lab_context\<rparr>) \<and>
   ctx_devices lab_context = [] @ adc # [] @ probe # [] \<and>
   descriptor lab_context =
     (dtd @ ''<context name=\"'' @ ctx_name lab_context @ ''\" description=\"'' @
        ctx_description lab_context @ ''\">'') @
     device_element adc @ device_element probe @ ''</context>''"
proof -
  have devs: "ctx_devices lab_context = [] @ adc # [] @ probe # []"
    by (simp add: lab_context_def)
  note t = generate_xml_descriptor [of lab_context
      "lab_context\<lparr>ctx_xml := descriptor lab_context\<rparr>" _ _ _ "[]" adc "[]" probe "[]"]
  have r: "renderable lab_context \<and>
      lab_context\<lparr>ctx_xml := descriptor lab_context\<rparr> =
      lab_context\<lparr>ctx_xml := descriptor lab_context\<rparr>"
    using renderable_lab by simp
  have 1: "generate_xml lab_context =
      Inr (lab_context\<lparr>ctx_xml := descriptor lab_context\<rparr>)"
    by (rule iffD2 [OF t [THEN conjunct1] r])
  from mp [OF t [THEN conjunct2, THEN conjunct2, THEN conjunct2, THEN conjunct2, THEN conjunct2] devs]
  have 2: "descriptor lab_context =
     (dtd @ ''<context name=\"'' @ ctx_name lab_context @ ''\" description=\"'' @
        ctx_description lab_context @ ''\">'') @
     device_element adc @ device_element probe @ ''</context>''"
    by simp
  show ?thesis
    by (intro conjI renderable_lab 1 devs 2)
qed

subsection \<open>C9: rendering twice\<close>

text \<open>
  Claim C9: the outcome of \<^verbatim>\<open>generate_xml\<close> does not depend on what the buffer held
  before, and rendering again a context that has been rendered returns the same context,
  with the same document in its buffer.
\<close>

theorem generate_xml_idempotent:
  "generate_xml (c\<lparr>ctx_xml := b\<rparr>) = generate_xml c \<and>
   (generate_xml c = Inr c' \<longrightarrow> generate_xml c' = Inr c' \<and> get_xml c' = descriptor c)"
proof -
  have 1: "generate_xml (c\<lparr>ctx_xml := b\<rparr>) = generate_xml c" for b
    by (simp add: generate_xml_eq generate_xml_body_xml split: sum.splits)
  have "generate_xml c' = Inr c' \<and> get_xml c' = descriptor c" if "generate_xml c = Inr c'"
  proof -
    from that have c': "c' = c\<lparr>ctx_xml := descriptor c\<rparr>"
      by (simp add: generate_xml_Inr_iff)
    with 1 [of "descriptor c"] that show ?thesis by (simp add: get_xml_def)
  qed
  with 1 show ?thesis by blast
qed

text \<open>The example, rendered and rendered again.\<close>

theorem generate_xml_idempotent_witness:
  "generate_xml tiny_context = Inr tiny_served \<and> generate_xml tiny_served = Inr tiny_served \<and>
   get_xml tiny_served = descriptor tiny_context"
proof -
  have "generate_xml tiny_context = Inr tiny_served"
    using renderable_tiny by (simp add: generate_xml_Inr_iff tiny_served_def)
  with generate_xml_idempotent [where c = tiny_context and c' = tiny_served] show ?thesis
    by simp
qed

subsection \<open>C10: long attribute names\<close>

text \<open>
  Claim C10 says that two names that agree on their first 32 characters collide at
  registration. It is false for names of 32 characters or more: their arrays hold no
  terminator, and the \<^verbatim>\<open>strcmp\<close> of the registration loop reads past them.
\<close>

theorem long_attribute_names_counterexample:
  "take ATTR_NAME_MAX_SIZE long_name_low = take ATTR_NAME_MAX_SIZE long_name_high \<and>
   iio_register_attribute True (iio_new_static_attribute zero_attribute long_name_high)
       [iio_new_static_attribute zero_attribute long_name_low] =
     Inl OverRead"
  by (simp add: long_name_low_def long_name_high_def iio_new_static_attribute_def zero_attribute_def strncpy_def
      iio_register_attribute_def strcmp_zero_def c_str_def sizes)

text \<open>
  Claim C10 as the code has it: \<^verbatim>\<open>iio_new_static_attribute\<close> and
  \<^verbatim>\<open>iio_new_attribute\<close> store the first 32 characters of the requested name. A name
  of fewer than 32 characters is stored whole, as a string; for two such names that
  agree on their first 32 characters (so, that are equal), registering the second into a
  collection that holds the first returns \<open>-EINVAL\<close>, and on a context that
  \<^verbatim>\<open>iio_init\<close> returned \<^verbatim>\<open>read_attr\<close> with the name resolves the attribute.
\<close>

theorem iio_new_static_attribute_name:
  "attr_name (iio_new_static_attribute a name) = take ATTR_NAME_MAX_SIZE name \<and>
   (\<forall>x. iio_new_attribute True name = Some x \<longrightarrow> attr_name x = take ATTR_NAME_MAX_SIZE name) \<and>
   (length name < ATTR_NAME_MAX_SIZE \<longrightarrow>
      c_str ATTR_NAME_MAX_SIZE (attr_name (iio_new_static_attribute a name)) = Some name) \<and>
   (length name1 < ATTR_NAME_MAX_SIZE \<and> length name2 < ATTR_NAME_MAX_SIZE \<and>
    take ATTR_NAME_MAX_SIZE name1 = take ATTR_NAME_MAX_SIZE name2 \<and>
    list_all attribute_ok list \<and> iio_new_static_attribute a name1 \<in> set list \<longrightarrow>
      iio_register_attribute calloc_ok (iio_new_static_attribute a' name2) list =
        Inr (- EINVAL, list)) \<and>
   (iio_init c0 nm ds devs wcb rcb = Inr c \<and> atoi device = Some n \<and>
    find_device c (word_of_int n) = Some dev \<and>
    length name < ATTR_NAME_MAX_SIZE \<and> iio_new_static_attribute a name \<in> set (dev_attrs dev) \<longrightarrow>
      read_attr c device name buf len type w =
        (case acc_read_attr (dev_attr_accessors dev) of
           None \<Rightarrow> Inr (- ENOSYS, w)
         | Some f \<Rightarrow> Inr (f (dev_data dev) name buf len type w)))"
proof (intro conjI allI impI; (elim conjE)?)
  show "attr_name (iio_new_static_attribute a name) = take ATTR_NAME_MAX_SIZE name"
    by (simp add: iio_new_static_attribute_def strncpy_def)
next
  fix x assume "iio_new_attribute True name = Some x"
  then show "attr_name x = take ATTR_NAME_MAX_SIZE name"
    by (auto simp: iio_new_attribute_def iio_new_static_attribute_def strncpy_def)
next
  assume "length name < ATTR_NAME_MAX_SIZE"
  then show "c_str ATTR_NAME_MAX_SIZE (attr_name (iio_new_static_attribute a name)) = Some name"
    by (simp add: iio_new_static_attribute_def strncpy_def c_str_def)
next
  assume l1: "length name1 < ATTR_NAME_MAX_SIZE" and l2: "length name2 < ATTR_NAME_MAX_SIZE"
    and tk: "take ATTR_NAME_MAX_SIZE name1 = take ATTR_NAME_MAX_SIZE name2"
    and ok: "list_all attribute_ok list"
    and mem: "iio_new_static_attribute a name1 \<in> set list"
  have "name1 = take ATTR_NAME_MAX_SIZE name1" using l1 by simp
  also have "\<dots> = take ATTR_NAME_MAX_SIZE name2" by (rule tk)
  also have "\<dots> = name2" using l2 by simp
  finally have eq: "name1 = name2" .
  have "attr_name (iio_new_static_attribute a name1) \<in> attr_name ` set list"
    using mem by (rule imageI)
  then have "attr_name (iio_new_static_attribute a' name2) \<in> attr_name ` set list"
    using eq by (simp add: iio_new_static_attribute_def)
  moreover have "length (attr_name (iio_new_static_attribute a' name2)) < ATTR_NAME_MAX_SIZE"
    using l2 by (simp add: iio_new_static_attribute_def strncpy_def)
  moreover have "\<forall>x\<in>set list. length (attr_name x) < ATTR_NAME_MAX_SIZE"
    using ok by (simp add: list_all_iff attribute_ok_def)
  ultimately show "iio_register_attribute calloc_ok (iio_new_static_attribute a' name2) list =
        Inr (- EINVAL, list)"
    by (intro iio_register_attribute_dup)
next
  assume init: "iio_init c0 nm ds devs wcb rcb = Inr c" and at: "atoi device = Some n"
    and dev: "find_device c (word_of_int n) = Some dev"
    and l: "length name < ATTR_NAME_MAX_SIZE"
    and mem: "iio_new_static_attribute a name \<in> set (dev_attrs dev)"
  from init have ok: "context_ok c" by (simp add: iio_init_context_ok)
  from l have "attr_name (iio_new_static_attribute a name) = name"
    by (simp add: iio_new_static_attribute_def strncpy_def)
  with mem have "\<exists>x\<in>set (dev_attrs dev). attr_name x = name" by (rule rev_bexI)
  then have "find_attribute (dev_attrs dev) name \<noteq> None"
    by (auto simp: find_attribute_def find_None_iff)
  with dev show "read_attr c device name buf len type w =
        (case acc_read_attr (dev_attr_accessors dev) of
           None \<Rightarrow> Inr (- ENOSYS, w)
         | Some f \<Rightarrow> Inr (f (dev_data dev) name buf len type w))"
    using read_attr_resolved [OF ok at, of name buf len type w] by auto
qed

text \<open>The attribute "sample_rate" of the example.\<close>

theorem iio_new_static_attribute_name_witness:
  "attr_name (iio_new_static_attribute zero_attribute ''sample_rate'') = ''sample_rate'' \<and>
   iio_new_attribute True ''sample_rate'' = Some \<lparr>attr_name = ''sample_rate''\<rparr> \<and>
   c_str ATTR_NAME_MAX_SIZE (attr_name (iio_new_static_attribute zero_attribute ''sample_rate'')) =
     Some ''sample_rate'' \<and>
   iio_new_static_attribute zero_attribute ''sample_rate'' \<in> set (dev_attrs adc) \<and>
   iio_register_attribute True (iio_new_static_attribute zero_attribute ''sample_rate'')
       (dev_attrs adc) = Inr (- EINVAL, dev_attrs adc) \<and>
   read_attr tiny_served ''0'' ''sample_rate'' 0 16 IIO_ATTR_TYPE_DEVICE empty_memory =
     Inr (4, empty_memory(0 := ''1000''))"
proof -
  let ?a = zero_attribute
  note t = iio_new_static_attribute_name [where a = ?a and a' = ?a and name = "''sample_rate''"
      and ?name1.0 = "''sample_rate''" and ?name2.0 = "''sample_rate''"
      and list = "dev_attrs adc" and calloc_ok = True
      and ?c0.0 = static_context and nm = "''tiny''" and ds = "''Tiny IIOD''" and devs = "[adc]"
      and wcb = "Some ()" and rcb = "Some ()" and c = tiny_served and device = "''0''" and n = 0
      and dev = adc and buf = 0 and len = 16 and type = IIO_ATTR_TYPE_DEVICE and w = empty_memory]
  have new: "iio_new_static_attribute ?a ''sample_rate'' = \<lparr>attr_name = ''sample_rate''\<rparr>"
    by (simp add: iio_new_static_attribute_def zero_attribute_def strncpy_def sizes)
  have mem: "iio_new_static_attribute ?a ''sample_rate'' \<in> set (dev_attrs adc)"
    by (simp add: new adc_def)
  have ok: "list_all attribute_ok (dev_attrs adc)"
    by (simp add: adc_def attribute_ok_def sizes)
  have len: "length ''sample_rate'' < ATTR_NAME_MAX_SIZE"
    by (simp add: sizes)
  from t have 1: "attr_name (iio_new_static_attribute ?a ''sample_rate'') =
      take ATTR_NAME_MAX_SIZE ''sample_rate''"
    by (rule conjunct1)
  from t len have 3: "c_str ATTR_NAME_MAX_SIZE (attr_name (iio_new_static_attribute ?a ''sample_rate'')) =
      Some ''sample_rate''"
    by blast
  from t len ok mem have 4: "iio_register_attribute True (iio_new_static_attribute ?a ''sample_rate'')
       (dev_attrs adc) = Inr (- EINVAL, dev_attrs adc)"
    by blast
  from t iio_init_tiny atoi_0 find_device_tiny_0 len mem
  have 5: "read_attr tiny_served ''0'' ''sample_rate'' 0 16 IIO_ATTR_TYPE_DEVICE empty_memory =
      (case acc_read_attr (dev_attr_accessors adc) of
           None \<Rightarrow> Inr (- ENOSYS, empty_memory)
         | Some f \<Rightarrow> Inr (f (dev_data adc) ''sample_rate'' 0 16 IIO_ATTR_TYPE_DEVICE empty_memory))"
    by simp
  have 2: "iio_new_attribute True ''sample_rate'' = Some \<lparr>attr_name = ''sample_rate''\<rparr>"
    by (simp add: iio_new_attribute_def iio_new_static_attribute_def strncpy_def sizes)
  from 1 2 3 4 5 mem show ?thesis
    by (simp add: sizes adc_def example_attr_accessors_def read_dev_attr_def snprintf_16)
qed

end
